theory Spec2Isabelle
  imports Main
begin

section \<open>Log events\<close>

text \<open>
  A log entry as the frontend handles it: an object with the fields \<open>message\<close>,
  \<open>type\<close> (the severity: info, success, warning, error) and \<open>timestamp\<close>.
  The JavaScript timestamp is an ISO date string that the code only ever reads through
  \<open>new Date(ts).getTime()\<close>; the model keeps that number of milliseconds since the
  epoch (negative before 1970). \<open>None\<close> is a timestamp that is missing or falsy
  (undefined, null, the empty string), which is what the test \<open>a.timestamp ? ... : 0\<close>
  of the source asks. A date string that does not parse (getTime gives NaN) is outside
  the model.
\<close>

record log_event =
  message :: string
  logtype :: string
  timestamp :: "int option"

text \<open>\<open>a.timestamp ? new Date(a.timestamp).getTime() : 0\<close> (history.js, lines 94 and 95).\<close>

definition timeOf :: "log_event \<Rightarrow> int" where
  "timeOf a = (case timestamp a of None \<Rightarrow> 0 | Some t \<Rightarrow> t)"

text \<open>The comparator handed to \<open>uniqueLogs.sort\<close>: \<open>timeA - timeB\<close>.\<close>

definition compareLogs :: "log_event \<Rightarrow> log_event \<Rightarrow> int" where
  "compareLogs a b = timeOf a - timeOf b"

text \<open>
  \<open>Array.prototype.sort\<close> with a comparator is a stable sort: an element moves in front
  of another one only when the comparator puts it strictly before. It is modelled by
  stable insertion, from the right end of the array: an element is placed in front of
  the first element of the sorted rest that the comparator does not put before it.
\<close>

fun insertBy :: "('a \<Rightarrow> 'a \<Rightarrow> int) \<Rightarrow> 'a \<Rightarrow> 'a list \<Rightarrow> 'a list" where
  "insertBy cmp x [] = [x]"
| "insertBy cmp x (y # ys) = (if cmp x y \<le> 0 then x # y # ys else y # insertBy cmp x ys)"

fun array_sort :: "('a \<Rightarrow> 'a \<Rightarrow> int) \<Rightarrow> 'a list \<Rightarrow> 'a list" where
  "array_sort cmp [] = []"
| "array_sort cmp (x # xs) = insertBy cmp x (array_sort cmp xs)"

text \<open>
  The deduplication loop of \<open>saveCompleteLogsToHistory\<close> (lines 82 to 90):
  \<open>seenMessages\<close> is the set of messages met so far, \<open>uniqueLogs\<close> the array that the
  loop pushes to.
\<close>

fun uniqueLoop :: "log_event list \<Rightarrow> string set \<Rightarrow> log_event list \<Rightarrow> log_event list" where
  "uniqueLoop [] seenMessages uniqueLogs = uniqueLogs"
| "uniqueLoop (log # rest) seenMessages uniqueLogs =
     (if message log \<notin> seenMessages
      then uniqueLoop rest (insert (message log) seenMessages) (uniqueLogs @ [log])
      else uniqueLoop rest seenMessages uniqueLogs)"

text \<open>
  Lines 78 to 97 of \<open>saveCompleteLogsToHistory\<close>: the backend's logs are put in front of
  the record's logs, duplicates by message are dropped, the rest is sorted by time.
\<close>

definition reconcileLogs :: "log_event list \<Rightarrow> log_event list \<Rightarrow> log_event list" where
  "reconcileLogs backendLogs existingLogs =
     (let allLogs = backendLogs @ existingLogs;
          uniqueLogs = uniqueLoop allLogs {} []
      in array_sort compareLogs uniqueLogs)"

text \<open>
  The merge of \<open>updateHistoryItem\<close> (lines 49 to 52): the incoming logs whose message
  the record does not hold yet are appended to the record's logs.
\<close>

definition mergeUpdateLogs :: "log_event list \<Rightarrow> log_event list \<Rightarrow> log_event list" where
  "mergeUpdateLogs existingLogs incoming =
     (let existingMessages = set (map message existingLogs);
          newLogs = filter (\<lambda>l. message l \<notin> existingMessages) incoming
      in existingLogs @ newLogs)"

text \<open>
  What the loop computes, without the accumulator: the first event of each message that
  is not in \<open>seen\<close> yet. It is used in the proofs only (\<open>uniqueLoop_firstOfEach\<close>).
\<close>

fun firstOfEach :: "string set \<Rightarrow> log_event list \<Rightarrow> log_event list" where
  "firstOfEach seen [] = []"
| "firstOfEach seen (l # ls) =
     (if message l \<in> seen then firstOfEach seen ls
      else l # firstOfEach (insert (message l) seen) ls)"


section \<open>The history store\<close>

text \<open>The result object of a finished task: its \<open>allLogs\<close> array, when it has one, and
  the rest of the payload, which the frontend passes on untouched.\<close>

record task_result =
  res_allLogs :: "log_event list option"
  res_payload :: string

text \<open>
  A history item as \<open>saveToHistory\<close> builds it (lines 10 to 23), with the three fields
  that the updates of the poller add later (\<open>updatedAt\<close>, \<open>endTime\<close>, \<open>duration\<close>).
  The fields \<open>id\<close> and \<open>type\<close> of the source are \<open>item_id\<close> and \<open>tasktype\<close> here.
  Dates are kept as milliseconds since the epoch; \<open>None\<close> is null or an absent field.
\<close>

record history_item =
  item_id :: string
  taskId :: string
  tasktype :: string
  path :: "string option"
  folderName :: "string option"
  startTime :: int
  status :: string
  logs :: "log_event list"
  allLogs :: "log_event list"
  result :: "task_result option"
  error :: "string option"
  savedAt :: int
  updatedAt :: "int option"
  endTime :: "int option"
  duration :: "string option"

text \<open>The argument of \<open>saveToHistory\<close>: every field but \<open>taskId\<close> may be left out.\<close>

record task_data =
  td_taskId :: string
  td_type :: "string option"
  td_path :: "string option"
  td_folderName :: "string option"
  td_startTime :: "int option"
  td_status :: "string option"
  td_logs :: "log_event list option"
  td_allLogs :: "log_event list option"
  td_result :: "task_result option"
  td_error :: "string option"

text \<open>The second argument of \<open>updateHistoryItem\<close>: the fields that a caller passes;
  \<open>None\<close> is a key that the object does not have.\<close>

record updates =
  u_status :: "string option"
  u_endTime :: "int option"
  u_logs :: "log_event list option"
  u_duration :: "string option"
  u_result :: "task_result option"
  u_error :: "string option"

text \<open>
  What is kept in localStorage under \<open>HISTORY_KEY\<close>, as \<open>JSON.parse\<close> reads it:
  \<open>Absent\<close> when \<open>getItem\<close> gives null or the empty string (the source then parses
  the literal \<open>'[]'\<close>), \<open>Corrupt\<close> when the text is not JSON and \<open>JSON.parse\<close> throws,
  \<open>Parsed h\<close> when it is the array \<open>h\<close> of history items. \<open>writable\<close> is false when
  \<open>setItem\<close> throws (quota exceeded, storage disabled).
\<close>

datatype snapshot = Absent | Corrupt | Parsed "history_item list"

record storage =
  item :: snapshot
  writable :: bool

datatype js_error = SyntaxError | QuotaExceededError

definition MAX_HISTORY_ITEMS :: nat where
  "MAX_HISTORY_ITEMS = 100"

text \<open>\<open>JSON.parse(localStorage.getItem(HISTORY_KEY) || '[]')\<close>\<close>

definition readHistory :: "storage \<Rightarrow> js_error + history_item list" where
  "readHistory st =
     (case item st of
        Absent \<Rightarrow> Inr []
      | Corrupt \<Rightarrow> Inl SyntaxError
      | Parsed h \<Rightarrow> Inr h)"

text \<open>\<open>localStorage.setItem(HISTORY_KEY, JSON.stringify(history))\<close>\<close>

definition setItem :: "storage \<Rightarrow> history_item list \<Rightarrow> js_error + storage" where
  "setItem st h = (if writable st then Inr (st\<lparr>item := Parsed h\<rparr>) else Inl QuotaExceededError)"

text \<open>\<open>try { ... } catch (error) { ... }\<close>: the handler runs on an exception of the body.\<close>

definition try_catch :: "(js_error + 'a) \<Rightarrow> (js_error \<Rightarrow> js_error + 'a) \<Rightarrow> js_error + 'a" where
  "try_catch body handler = (case body of Inl e \<Rightarrow> handler e | Inr v \<Rightarrow> Inr v)"

text \<open>\<open>x || d\<close> on a string that may be missing: the empty string is falsy too.\<close>

definition str_or :: "string option \<Rightarrow> string \<Rightarrow> string" where
  "str_or x d = (case x of None \<Rightarrow> d | Some s \<Rightarrow> if s = [] then d else s)"

text \<open>\<open>x || null\<close> on a string that may be missing.\<close>

definition str_or_null :: "string option \<Rightarrow> string option" where
  "str_or_null x = (case x of None \<Rightarrow> None | Some s \<Rightarrow> if s = [] then None else Some s)"

text \<open>\<open>x || []\<close> on an array that may be missing (an empty array is truthy).\<close>

definition logs_or_empty :: "log_event list option \<Rightarrow> log_event list" where
  "logs_or_empty x = (case x of None \<Rightarrow> [] | Some l \<Rightarrow> l)"

text \<open>\<open>history.findIndex(pred)\<close>: the first index whose element satisfies the predicate;
  \<open>None\<close> is the source's \<open>-1\<close>.\<close>

fun findIndex :: "('a \<Rightarrow> bool) \<Rightarrow> 'a list \<Rightarrow> nat option" where
  "findIndex pred [] = None"
| "findIndex pred (x # xs) =
     (if pred x then Some 0 else map_option Suc (findIndex pred xs))"

text \<open>
  The object that \<open>saveToHistory\<close> builds at lines 10 to 23. \<open>uuid\<close> is what
  \<open>uuidv4()\<close> returns and \<open>now\<close> the clock.
\<close>

definition newHistoryItem :: "task_data \<Rightarrow> string \<Rightarrow> int \<Rightarrow> history_item" where
  "newHistoryItem taskData uuid now = \<lparr>
     item_id = uuid,
     taskId = td_taskId taskData,
     tasktype = str_or (td_type taskData) ''unknown'',
     path = td_path taskData,
     folderName = td_folderName taskData,
     startTime = (case td_startTime taskData of None \<Rightarrow> now | Some t \<Rightarrow> t),
     status = str_or (td_status taskData) ''running'',
     logs = logs_or_empty (td_logs taskData),
     allLogs = logs_or_empty (td_allLogs taskData),
     result = td_result taskData,
     error = str_or_null (td_error taskData),
     savedAt = now,
     updatedAt = None,
     endTime = None,
     duration = None \<rparr>"

text \<open>
  \<open>saveToHistory\<close> (lines 6 to 39). The result is the new item's id, or \<open>None\<close>
  (null) when the catch block ran, and the storage afterwards.
\<close>

definition saveToHistory :: "task_data \<Rightarrow> string \<Rightarrow> int \<Rightarrow> storage \<Rightarrow> string option \<times> storage" where
  "saveToHistory taskData uuid now st =
     (case readHistory st of
        Inl e \<Rightarrow> (None, st)
      | Inr existingHistory \<Rightarrow>
          (let historyItem = newHistoryItem taskData uuid now;
               newHistory = historyItem # existingHistory;
               newHistory = (if length newHistory > MAX_HISTORY_ITEMS
                             then take MAX_HISTORY_ITEMS newHistory else newHistory)
           in case setItem st newHistory of
                Inl e \<Rightarrow> (None, st)
              | Inr st' \<Rightarrow> (Some (item_id historyItem), st')))"

text \<open>The object spread \<open>{...item, ...updates, updatedAt: now}\<close> of lines 55 to 59.\<close>

definition spreadUpdates :: "history_item \<Rightarrow> updates \<Rightarrow> int \<Rightarrow> history_item" where
  "spreadUpdates it u now = it\<lparr>
     status := (case u_status u of None \<Rightarrow> status it | Some s \<Rightarrow> s),
     endTime := (case u_endTime u of None \<Rightarrow> endTime it | Some t \<Rightarrow> Some t),
     logs := (case u_logs u of None \<Rightarrow> logs it | Some l \<Rightarrow> l),
     duration := (case u_duration u of None \<Rightarrow> duration it | Some d \<Rightarrow> Some d),
     result := (case u_result u of None \<Rightarrow> result it | Some r \<Rightarrow> Some r),
     error := (case u_error u of None \<Rightarrow> error it | Some e \<Rightarrow> Some e),
     updatedAt := Some now \<rparr>"

text \<open>
  Lines 48 to 53 of \<open>updateHistoryItem\<close>: when the updates bring a non-empty \<open>logs\<close>
  array, it is replaced by its merge with the logs of the item.
\<close>

definition mergeLogsField :: "history_item \<Rightarrow> updates \<Rightarrow> updates" where
  "mergeLogsField it upd =
     (case u_logs upd of
        None \<Rightarrow> upd
      | Some ls \<Rightarrow>
          if length ls > 0
          then upd\<lparr>u_logs := Some (mergeUpdateLogs (logs it) ls)\<rparr>
          else upd)"

text \<open>
  \<open>updateHistoryItem\<close> (lines 41 to 69). The result is \<open>itemIndex !== -1\<close>, or false
  when the catch block ran, and the storage afterwards.
\<close>

definition updateHistoryItem :: "string \<Rightarrow> updates \<Rightarrow> int \<Rightarrow> storage \<Rightarrow> bool \<times> storage" where
  "updateHistoryItem tid upd now st =
     (case readHistory st of
        Inl e \<Rightarrow> (False, st)
      | Inr history \<Rightarrow>
          (case findIndex (\<lambda>it. taskId it = tid) history of
             None \<Rightarrow> (False, st)
           | Some itemIndex \<Rightarrow>
               (let upd = mergeLogsField (history ! itemIndex) upd;
                    history = history[itemIndex := spreadUpdates (history ! itemIndex) upd now]
                in case setItem st history of
                     Inl e \<Rightarrow> (False, st)
                   | Inr st' \<Rightarrow> (True, st'))))"

text \<open>
  \<open>saveCompleteLogsToHistory\<close> (lines 71 to 116); \<open>None\<close> for the second argument is a
  call without it, which takes the default \<open>[]\<close>.
\<close>

definition saveCompleteLogsToHistory ::
  "string \<Rightarrow> log_event list option \<Rightarrow> int \<Rightarrow> storage \<Rightarrow> bool \<times> storage" where
  "saveCompleteLogsToHistory tid backendLogsArg now st =
     (let backendLogs = logs_or_empty backendLogsArg
      in case readHistory st of
           Inl e \<Rightarrow> (False, st)
         | Inr history \<Rightarrow>
             (case findIndex (\<lambda>it. taskId it = tid) history of
                None \<Rightarrow> (False, st)
              | Some itemIndex \<Rightarrow>
                  (let uniqueLogs = reconcileLogs backendLogs (logs (history ! itemIndex));
                       history = history[itemIndex := (history ! itemIndex)\<lparr>
                                   logs := uniqueLogs,
                                   allLogs := backendLogs,
                                   updatedAt := Some now \<rparr>]
                   in case setItem st history of
                        Inl e \<Rightarrow> (False, st)
                      | Inr st' \<Rightarrow> (True, st'))))"

text \<open>\<open>getHistory\<close> (lines 118 to 125): the catch block answers the empty array.\<close>

definition getHistory :: "storage \<Rightarrow> js_error + history_item list" where
  "getHistory st = try_catch (readHistory st) (\<lambda>error. Inr [])"

text \<open>
  The item that \<open>updateHistoryItem\<close> and \<open>saveCompleteLogsToHistory\<close> address for
  a task: the first one of the stored array with that \<open>taskId\<close>. No function of the
  source returns it; the theorems below read the store through it.
\<close>

definition lookupItem :: "string \<Rightarrow> storage \<Rightarrow> history_item option" where
  "lookupItem tid st =
     (case readHistory st of
        Inl e \<Rightarrow> None
      | Inr history \<Rightarrow> find (\<lambda>it. taskId it = tid) history)"

section \<open>The poller\<close>

text \<open>
  The texts that the poller writes into the log are Russian sentences that start with
  an emoji in the source; they are given here letter by letter in Latin script, with the
  emoji as a bracketed tag. Only their being equal or different matters to the code.
\<close>

definition msgSuccess :: string where
  "msgSuccess = ''[ok] Parsing zavershen uspeshno!''"

definition msgNoResult :: string where
  "msgNoResult = ''[ok] Zadacha zavershena (rezultat ne poluchen)''"

definition msgFailed :: string where
  "msgFailed = ''[x] Parsing zavershen s oshibkoj''"

definition msgConnection :: "string \<Rightarrow> string" where
  "msgConnection m = ''[x] Oshibka svyazi s serverom: '' @ m"

definition errConnection :: string where
  "errConnection = ''Oshibka svyazi s serverom''"

fun show_nat :: "nat \<Rightarrow> string" where
  "show_nat n =
     (if n < 10 then [char_of (48 + n)]
      else show_nat (n div 10) @ [char_of (48 + n mod 10)])"

declare show_nat.simps [simp del]

definition show_int :: "int \<Rightarrow> string" where
  "show_int i = (if i < 0 then ''-'' @ show_nat (nat (- i)) else show_nat (nat i))"

text \<open>\<open>formatDuration\<close> (lines 900 to 909); \<open>Math.floor\<close> of a quotient is \<open>div\<close> on
  the integers.\<close>

definition formatDuration :: "int \<Rightarrow> int \<Rightarrow> string" where
  "formatDuration start end =
     (let dur = end - start;
          seconds = dur div 1000
      in if seconds < 60 then show_int seconds @ '' sek''
         else (let minutes = seconds div 60;
                   remainingSeconds = seconds mod 60
               in show_int minutes @ '' min '' @ show_int remainingSeconds @ '' sek''))"

text \<open>An error that axios throws: its \<open>code\<close> (\<open>ECONNABORTED\<close> for a timeout) and its
  \<open>message\<close>.\<close>

record axios_error =
  err_code :: "string option"
  err_message :: string

text \<open>The body of the answer to \<open>GET /api/task/id/logs\<close>.\<close>

record logs_response =
  resp_logs :: "log_event list option"
  resp_status :: string

text \<open>
  What one run of \<open>poll\<close> meets: the outcome of the logs request, the outcome of the
  result request (asked for only when the status is completed; \<open>Inr None\<close> is an answer
  without a \<open>result\<close>, on which \<open>finalResult.allLogs\<close> throws), and the clock.
\<close>

record poll_event =
  fetched :: "axios_error + logs_response"
  resultFetched :: "axios_error + task_result option"
  clock :: int

text \<open>
  The state that \<open>poll\<close> works on: the counter \<open>attempt\<close> of \<open>pollLogs\<close>, the React
  states \<open>logs\<close>, \<open>loading\<close> and \<open>error\<close> as their setters leave them, and localStorage.
\<close>

record poller =
  attempt :: nat
  logsState :: "log_event list"
  loading :: bool
  errorState :: string
  store :: storage

text \<open>How a run of \<open>poll\<close> ends: with \<open>setTimeout(poll, delay)\<close>, or without it.\<close>

datatype poll_next = Reschedule nat poller | Stopped poller

definition maxAttempts :: nat where
  "maxAttempts = 10"

definition noUpdates :: updates where
  "noUpdates = \<lparr> u_status = None, u_endTime = None, u_logs = None,
                 u_duration = None, u_result = None, u_error = None \<rparr>"

text \<open>
  The function handed to \<open>setLogs\<close> at lines 768 to 782, applied to the state: the
  fetched logs whose message the \<open>logs\<close> state does not hold yet are appended to it,
  and when there are any, the history item is updated with the whole list and the
  fetched status.
\<close>

definition mergePolledLogs :: "string \<Rightarrow> poll_event \<Rightarrow> logs_response \<Rightarrow> poller \<Rightarrow> poller" where
  "mergePolledLogs tid ev response p =
     (let newLogs = logs_or_empty (resp_logs response);
          taskStatus = resp_status response;
          existingMessages = set (map message (logsState p));
          filtered = filter (\<lambda>l. message l \<notin> existingMessages) newLogs;
          updatedLogs = logsState p @ filtered
      in if length filtered > 0
         then p\<lparr>logsState := updatedLogs,
                store := snd (updateHistoryItem tid
                                (noUpdates\<lparr>u_logs := Some updatedLogs, u_status := Some taskStatus\<rparr>)
                                (clock ev) (store p))\<rparr>
         else p\<lparr>logsState := updatedLogs\<rparr>)"

text \<open>
  One run of \<open>poll\<close> (lines 758 to 895) for the task \<open>tid\<close> started at \<open>startT\<close>.
  \<open>closureLogs\<close> is the value of the component's \<open>logs\<close> that the closure was created
  with: the spreads \<open>...logs\<close> of lines 799, 829, 843 and 875 read it, not the state
  that \<open>setLogs\<close> has built since. React calls the function handed to \<open>setLogs\<close> at
  line 768 at the next render: while the result request of line 789 is awaited in the
  completed branch, and after the run of \<open>poll\<close> in the other branches, so that in the
  failed branch the update of line 851 is written to the store before it.
\<close>

definition poll :: "string \<Rightarrow> int \<Rightarrow> log_event list \<Rightarrow> poll_event \<Rightarrow> poller \<Rightarrow> poll_next" where
  "poll tid startT closureLogs ev p =
     (case fetched ev of
        Inr response \<Rightarrow>
          (let taskStatus = resp_status response;
               p1 = mergePolledLogs tid ev response p
           in if taskStatus = ''running'' then Reschedule 1500 p1
              else if taskStatus = ''completed'' then
                (case resultFetched ev of
                   Inr (Some finalResult) \<Rightarrow>
                     (let backendLogs = logs_or_empty (res_allLogs finalResult);
                          st2 = snd (saveCompleteLogsToHistory tid (Some backendLogs) (clock ev)
                                       (store p1));
                          doneLog = \<lparr>message = msgSuccess, logtype = ''success'',
                                     timestamp = Some (clock ev)\<rparr>;
                          finalLogs = closureLogs @ [doneLog];
                          st3 = snd (updateHistoryItem tid
                                  (noUpdates\<lparr>u_status := Some ''completed'',
                                             u_endTime := Some (clock ev),
                                             u_logs := Some finalLogs,
                                             u_duration := Some (formatDuration startT (clock ev)),
                                             u_result := Some finalResult\<rparr>)
                                  (clock ev) st2)
                      in Stopped (p1\<lparr>store := st3, logsState := logsState p1 @ [doneLog],
                                     loading := False\<rparr>))
                 | _ \<Rightarrow>
                     (let noteLog = \<lparr>message = msgNoResult, logtype = ''info'',
                                     timestamp = Some (clock ev)\<rparr>;
                          st2 = snd (updateHistoryItem tid
                                  (noUpdates\<lparr>u_status := Some ''completed'',
                                             u_endTime := Some (clock ev),
                                             u_duration := Some (formatDuration startT (clock ev)),
                                             u_logs := Some (closureLogs @ [noteLog])\<rparr>)
                                  (clock ev) (store p1))
                      in Stopped (p1\<lparr>store := st2, loading := False\<rparr>)))
              else if taskStatus = ''failed'' then
                (let failLog = \<lparr>message = msgFailed, logtype = ''error'',
                                timestamp = Some (clock ev)\<rparr>;
                     finalLogs = closureLogs @ [failLog];
                     st2 = snd (updateHistoryItem tid
                                  (noUpdates\<lparr>u_status := Some ''failed'',
                                             u_endTime := Some (clock ev),
                                             u_logs := Some finalLogs,
                                             u_duration := Some (formatDuration startT (clock ev))\<rparr>)
                                  (clock ev) (store p));
                     p2 = mergePolledLogs tid ev response (p\<lparr>store := st2\<rparr>)
                 in Stopped (p2\<lparr>logsState := logsState p2 @ [failLog], loading := False\<rparr>))
              else Stopped p1)
      | Inl err \<Rightarrow>
          (if err_code err = Some ''ECONNABORTED'' \<and> attempt p < maxAttempts
           then Reschedule 2000 (p\<lparr>attempt := attempt p + 1\<rparr>)
           else
             (let errorLogs = closureLogs @
                    [\<lparr>message = msgConnection (err_message err), logtype = ''error'',
                      timestamp = Some (clock ev)\<rparr>];
                  st1 = snd (updateHistoryItem tid
                               (noUpdates\<lparr>u_status := Some ''failed'',
                                          u_endTime := Some (clock ev),
                                          u_error := Some (err_message err),
                                          u_logs := Some errorLogs,
                                          u_duration := Some (formatDuration startT (clock ev))\<rparr>)
                               (clock ev) (store p))
              in Stopped (p\<lparr>store := st1, loading := False, errorState := errConnection\<rparr>))))"

text \<open>
  \<open>pollLogs\<close> (lines 754 to 898): \<open>poll\<close> runs, and runs again each time it has
  rescheduled itself, once per event of the trace. \<open>Reschedule d p\<close> as the result is a
  trace that ends while a timer of \<open>d\<close> milliseconds is pending.
\<close>

fun runPoll :: "string \<Rightarrow> int \<Rightarrow> log_event list \<Rightarrow> poll_event \<Rightarrow> poll_event list \<Rightarrow> poller \<Rightarrow> poll_next" where
  "runPoll tid startT closureLogs ev [] p = poll tid startT closureLogs ev p"
| "runPoll tid startT closureLogs ev (ev' # evs) p =
     (case poll tid startT closureLogs ev p of
        Stopped p' \<Rightarrow> Stopped p'
      | Reschedule d p' \<Rightarrow> runPoll tid startT closureLogs ev' evs p')"

definition pollLogs :: "string \<Rightarrow> int \<Rightarrow> log_event list \<Rightarrow> poll_event \<Rightarrow> poll_event list \<Rightarrow> poller \<Rightarrow> poll_next" where
  "pollLogs tid startT closureLogs ev evs p = runPoll tid startT closureLogs ev evs (p\<lparr>attempt := 0\<rparr>)"

text \<open>
  Readings of the poller for the theorems below: a logs request that failed with the
  code that axios gives a timeout; a result request that did not give a result; whether
  a run of \<open>poll\<close> ended without a new timer, and the state it ended in.
\<close>

definition isTimeout :: "poll_event \<Rightarrow> bool" where
  "isTimeout ev = (case fetched ev of Inl err \<Rightarrow> err_code err = Some ''ECONNABORTED'' | Inr r \<Rightarrow> False)"

definition resultFailed :: "poll_event \<Rightarrow> bool" where
  "resultFailed ev = (case resultFetched ev of Inr (Some r) \<Rightarrow> False | _ \<Rightarrow> True)"

definition isStopped :: "poll_next \<Rightarrow> bool" where
  "isStopped n = (case n of Stopped p \<Rightarrow> True | Reschedule d p \<Rightarrow> False)"

definition finalPoller :: "poll_next \<Rightarrow> poller" where
  "finalPoller n = (case n of Stopped p \<Rightarrow> p | Reschedule d p \<Rightarrow> p)"

text \<open>The objects that \<open>poll\<close> hands to \<open>updateHistoryItem\<close> at lines 883 to 889
  (the outer catch block) and at lines 824 to 836 (the inner one).\<close>

definition abortUpdates :: "int \<Rightarrow> log_event list \<Rightarrow> poll_event \<Rightarrow> axios_error \<Rightarrow> updates" where
  "abortUpdates startT closureLogs ev err =
     noUpdates\<lparr>u_status := Some ''failed'',
               u_endTime := Some (clock ev),
               u_error := Some (err_message err),
               u_logs := Some (closureLogs @
                    [\<lparr>message = msgConnection (err_message err), logtype = ''error'',
                      timestamp = Some (clock ev)\<rparr>]),
               u_duration := Some (formatDuration startT (clock ev))\<rparr>"

definition noResultUpdates :: "int \<Rightarrow> log_event list \<Rightarrow> poll_event \<Rightarrow> updates" where
  "noResultUpdates startT closureLogs ev =
     noUpdates\<lparr>u_status := Some ''completed'',
               u_endTime := Some (clock ev),
               u_duration := Some (formatDuration startT (clock ev)),
               u_logs := Some (closureLogs @
                    [\<lparr>message = msgNoResult, logtype = ''info'', timestamp = Some (clock ev)\<rparr>])\<rparr>"

section \<open>Sample data\<close>

text \<open>A log entry with the message \<open>a\<close> and a given severity, an info entry with a
  given message and timestamp, a history item of the task \<open>t1\<close> with given logs, and
  a store that holds just this item.\<close>

definition logA :: "string \<Rightarrow> log_event" where
  "logA sev = \<lparr>message = ''a'', logtype = sev, timestamp = None\<rparr>"

definition logAt :: "string \<Rightarrow> int option \<Rightarrow> log_event" where
  "logAt m t = \<lparr>message = m, logtype = ''info'', timestamp = t\<rparr>"

definition item1 :: "log_event list \<Rightarrow> history_item" where
  "item1 ls = \<lparr> item_id = ''id1'', taskId = ''t1'', tasktype = ''parse'', path = None,
     folderName = None, startTime = 0, status = ''running'', logs = ls, allLogs = [],
     result = None, error = None, savedAt = 0, updatedAt = None, endTime = None,
     duration = None \<rparr>"

definition store1 :: "log_event list \<Rightarrow> storage" where
  "store1 ls = \<lparr> item = Parsed [item1 ls], writable = True \<rparr>"

text \<open>The argument of an insert for the task \<open>t1\<close> with given logs, and a store
  with nothing under the key.\<close>

definition taskData1 :: "log_event list \<Rightarrow> task_data" where
  "taskData1 ls = \<lparr> td_taskId = ''t1'', td_type = Some ''parse'', td_path = None,
     td_folderName = None, td_startTime = Some 0, td_status = Some ''running'',
     td_logs = Some ls, td_allLogs = None, td_result = None, td_error = None \<rparr>"

definition emptyStore :: storage where
  "emptyStore = \<lparr> item = Absent, writable = True \<rparr>"

text \<open>A running item of the task \<open>t2\<close>, and a full store with it at the old end.\<close>

definition item2 :: history_item where
  "item2 = (item1 [])\<lparr> item_id := ''id2'', taskId := ''t2'' \<rparr>"

definition fullStore :: storage where
  "fullStore = \<lparr> item = Parsed (replicate 99 (item1 []) @ [item2]), writable = True \<rparr>"

text \<open>
  A logs request that times out, one that fails for another reason, one that answers
  with a status and no logs (the result request after it fails), one that answers
  completed with the logs \<open>x\<close> and \<open>y\<close> before the result request fails, a poller that
  has shown the log \<open>x\<close> and whose store holds the item of \<open>t1\<close> with that log, and a
  poller at its start whose store holds the item of \<open>t1\<close> without logs.
\<close>

definition timeoutEv :: poll_event where
  "timeoutEv = \<lparr> fetched = Inl \<lparr>err_code = Some ''ECONNABORTED'',
                                   err_message = ''timeout of 15000ms exceeded''\<rparr>,
                 resultFetched = Inr None, clock = 5 \<rparr>"

definition networkEv :: poll_event where
  "networkEv = \<lparr> fetched = Inl \<lparr>err_code = Some ''ERR_NETWORK'', err_message = ''Network Error''\<rparr>,
                 resultFetched = Inr None, clock = 5 \<rparr>"

definition statusEv :: "string \<Rightarrow> poll_event" where
  "statusEv s = \<lparr> fetched = Inr \<lparr>resp_logs = None, resp_status = s\<rparr>,
                  resultFetched = Inl \<lparr>err_code = Some ''ERR_BAD_RESPONSE'',
                                         err_message = ''Request failed with status code 500''\<rparr>,
                  clock = 5 \<rparr>"

definition polledEv :: poll_event where
  "polledEv = \<lparr> fetched = Inr \<lparr>resp_logs = Some [logAt ''x'' None, logAt ''y'' None],
                                  resp_status = ''completed''\<rparr>,
                resultFetched = Inl \<lparr>err_code = Some ''ERR_BAD_RESPONSE'',
                                       err_message = ''Request failed with status code 500''\<rparr>,
                clock = 5 \<rparr>"

definition poller1 :: poller where
  "poller1 = \<lparr> attempt = 0, logsState = [logAt ''x'' None], loading = True, errorState = [],
               store = store1 [logAt ''x'' None] \<rparr>"

definition poller0 :: poller where
  "poller0 = \<lparr> attempt = 0, logsState = [], loading = True, errorState = [],
               store = store1 [] \<rparr>"

section \<open>Properties of the merge functions\<close>

lemma array_sort_sort_key: "array_sort compareLogs xs = sort_key timeOf xs"
proof (induction xs)
  case Nil
  show ?case by simp
next
  case (Cons x xs)
  have ins: "insertBy compareLogs x ys = insort_key timeOf x ys" for ys
    by (induction ys) (simp_all add: compareLogs_def)
  show ?case using Cons ins by simp
qed

lemma uniqueLoop_firstOfEach: "uniqueLoop ls seen acc = acc @ firstOfEach seen ls"
  by (induction ls arbitrary: seen acc) simp_all

lemma firstOfEach_messages:
  "message ` set (firstOfEach seen ls) = message ` set ls - seen"
  by (induction ls arbitrary: seen) auto

lemma firstOfEach_distinct: "distinct (map message (firstOfEach seen ls))"
proof (induction ls arbitrary: seen)
  case Nil
  show ?case by simp
next
  case (Cons l ls)
  have "message l \<notin> message ` set (firstOfEach (insert (message l) seen) ls)"
    by (simp add: firstOfEach_messages)
  with Cons show ?case by simp
qed

lemma firstOfEach_find:
  "m \<notin> seen \<Longrightarrow>
   find (\<lambda>l. message l = m) (firstOfEach seen ls) = find (\<lambda>l. message l = m) ls"
  by (induction ls arbitrary: seen) auto

lemma firstOfEach_append_same:
  "set (map message xs) \<subseteq> seen \<union> set (map message ys) \<Longrightarrow>
   firstOfEach seen (ys @ xs) = firstOfEach seen ys"
proof (induction ys arbitrary: seen)
  case Nil
  have "set (map message xs) \<subseteq> seen \<Longrightarrow> firstOfEach seen xs = []" for seen
    by (induction xs arbitrary: seen) auto
  with Nil show ?case by simp
next
  case (Cons y ys)
  show ?case
  proof (cases "message y \<in> seen")
    case True
    with Cons.prems have "set (map message xs) \<subseteq> seen \<union> set (map message ys)" by auto
    with Cons.IH True show ?thesis by simp
  next
    case False
    from Cons.prems
    have "set (map message xs) \<subseteq> insert (message y) seen \<union> set (map message ys)" by auto
    with Cons.IH False show ?thesis by simp
  qed
qed

lemma reconcileLogs_sort_key:
  "reconcileLogs b e = sort_key timeOf (firstOfEach {} (b @ e))"
  by (simp add: reconcileLogs_def uniqueLoop_firstOfEach array_sort_sort_key)

lemma distinct_map_insort_key:
  "distinct (map g (insort_key f x xs)) = (g x \<notin> g ` set xs \<and> distinct (map g xs))"
  by (induction xs) (auto simp: set_insort_key)

lemma distinct_map_sort_key: "distinct (map g (sort_key f xs)) = distinct (map g xs)"
  by (induction xs) (simp_all add: distinct_map_insort_key)

lemma reconcileLogs_distinct: "distinct (map message (reconcileLogs b e))"
  by (simp add: reconcileLogs_sort_key distinct_map_sort_key firstOfEach_distinct)

lemma reconcileLogs_messages:
  "message ` set (reconcileLogs b e) = message ` set (b @ e)"
  by (simp add: reconcileLogs_sort_key firstOfEach_messages)

lemma find_unique_message:
  assumes "distinct (map message xs)" and "set ys = set xs"
  shows "find (\<lambda>l. message l = m) ys = find (\<lambda>l. message l = m) xs"
proof (cases "\<exists>x\<in>set xs. message x = m")
  case False
  then show ?thesis using assms(2) by (simp add: find_None_iff[THEN iffD2])
next
  case True
  then obtain x where x: "x \<in> set xs" "message x = m" by blast
  have uniq: "y = x" if "y \<in> set xs" "message y = m" for y
    using assms(1) x that by (meson distinct_map inj_onD)
  have "find (\<lambda>l. message l = m) zs = Some x" if "set zs = set xs" for zs
  proof (cases "find (\<lambda>l. message l = m) zs")
    case None
    then show ?thesis using x that by (auto simp: find_None_iff)
  next
    case (Some y)
    then have "y \<in> set zs" "message y = m" by (auto simp: find_Some_iff)
    with uniq that Some show ?thesis by simp
  qed
  from this[of ys] this[of xs] assms(2) show ?thesis by simp
qed

lemma reconcileLogs_find:
  "find (\<lambda>l. message l = m) (reconcileLogs b e) = find (\<lambda>l. message l = m) (b @ e)"
proof -
  have "find (\<lambda>l. message l = m) (reconcileLogs b e)
        = find (\<lambda>l. message l = m) (firstOfEach {} (b @ e))"
    by (rule find_unique_message) (simp_all add: firstOfEach_distinct reconcileLogs_sort_key)
  then show ?thesis by (simp add: firstOfEach_find)
qed

lemma reconcileLogs_sorted: "sorted (map timeOf (reconcileLogs b e))"
  by (simp add: reconcileLogs_sort_key)

lemma reconcileLogs_twice: "reconcileLogs E E = reconcileLogs [] E"
  by (simp add: reconcileLogs_sort_key firstOfEach_append_same)

lemma firstOfEach_id:
  "distinct (map message ls) \<Longrightarrow> message ` set ls \<inter> seen = {} \<Longrightarrow> firstOfEach seen ls = ls"
  by (induction ls arbitrary: seen) auto

lemma reconcileLogs_again: "reconcileLogs [] (reconcileLogs b e) = reconcileLogs b e"
proof -
  have "firstOfEach {} (reconcileLogs b e) = reconcileLogs b e"
    by (rule firstOfEach_id) (simp_all add: reconcileLogs_distinct)
  then have "reconcileLogs [] (reconcileLogs b e) = sort_key timeOf (reconcileLogs b e)"
    by (simp add: reconcileLogs_sort_key)
  also have "\<dots> = reconcileLogs b e"
    by (rule sort_key_id_if_sorted) (rule reconcileLogs_sorted)
  finally show ?thesis .
qed

section \<open>Properties of the store operations\<close>

lemma findIndex_Some: "findIndex P xs = Some i \<Longrightarrow> i < length xs \<and> P (xs ! i)"
  by (induction xs arbitrary: i) (auto split: if_splits)

lemma find_findIndex: "find P xs = map_option (\<lambda>i. xs ! i) (findIndex P xs)"
  by (induction xs) (auto simp: option.map_comp comp_def)

lemma find_update_at_findIndex:
  "findIndex P xs = Some i \<Longrightarrow> P y \<Longrightarrow> find P (xs[i := y]) = Some y"
proof (induction xs arbitrary: i)
  case Nil
  then show ?case by simp
next
  case (Cons x xs)
  then show ?case by (cases i) (auto split: if_splits)
qed

lemma lookupItem_Some:
  "lookupItem tid st = Some it \<Longrightarrow>
   \<exists>h i. readHistory st = Inr h \<and> findIndex (\<lambda>it. taskId it = tid) h = Some i \<and> h ! i = it"
  by (auto simp: lookupItem_def find_findIndex split: sum.splits)

lemma taskId_spreadUpdates: "taskId (spreadUpdates it u now) = taskId it"
  by (simp add: spreadUpdates_def)

lemma lookupItem_taskId: "lookupItem tid st = Some it \<Longrightarrow> taskId it = tid"
  by (auto simp: lookupItem_def find_Some_iff split: sum.splits)

lemma lookupItem_written: "lookupItem tid (st\<lparr>item := Parsed h\<rparr>) = find (\<lambda>it. taskId it = tid) h"
  by (simp add: lookupItem_def readHistory_def)

lemma updateHistoryItem_found:
  assumes "lookupItem tid st = Some it" and "writable st"
  shows "\<exists>st'. updateHistoryItem tid u now st = (True, st') \<and> writable st' \<and>
           lookupItem tid st' = Some (spreadUpdates it (mergeLogsField it u) now)"
proof -
  from lookupItem_Some[OF assms(1)] obtain h i where
    h: "readHistory st = Inr h" and i: "findIndex (\<lambda>it. taskId it = tid) h = Some i"
    and it: "h ! i = it" by blast
  let ?new = "spreadUpdates it (mergeLogsField it u) now"
  have tid: "taskId ?new = tid"
    using lookupItem_taskId[OF assms(1)] by (simp add: taskId_spreadUpdates)
  have run: "updateHistoryItem tid u now st = (True, st\<lparr>item := Parsed (h[i := ?new])\<rparr>)"
    using h i it assms(2) by (simp add: updateHistoryItem_def setItem_def)
  have "lookupItem tid (st\<lparr>item := Parsed (h[i := ?new])\<rparr>) = Some ?new"
    using find_update_at_findIndex[OF i, of ?new] tid by (simp add: lookupItem_written)
  with run assms(2) show ?thesis by simp
qed

lemma saveCompleteLogsToHistory_found:
  assumes "lookupItem tid st = Some it" and "writable st"
  shows "\<exists>st'. saveCompleteLogsToHistory tid b now st = (True, st') \<and> writable st' \<and>
           lookupItem tid st' =
             Some (it\<lparr>logs := reconcileLogs (logs_or_empty b) (logs it),
                      allLogs := logs_or_empty b, updatedAt := Some now\<rparr>)"
proof -
  from lookupItem_Some[OF assms(1)] obtain h i where
    h: "readHistory st = Inr h" and i: "findIndex (\<lambda>it. taskId it = tid) h = Some i"
    and it: "h ! i = it" by blast
  let ?new = "it\<lparr>logs := reconcileLogs (logs_or_empty b) (logs it),
                  allLogs := logs_or_empty b, updatedAt := Some now\<rparr>"
  have tid: "taskId ?new = tid"
    using lookupItem_taskId[OF assms(1)] by simp
  have run: "saveCompleteLogsToHistory tid b now st = (True, st\<lparr>item := Parsed (h[i := ?new])\<rparr>)"
    using h i it assms(2) by (simp add: saveCompleteLogsToHistory_def setItem_def Let_def)
  have "lookupItem tid (st\<lparr>item := Parsed (h[i := ?new])\<rparr>) = Some ?new"
    using find_update_at_findIndex[OF i, of ?new] tid by (simp add: lookupItem_written)
  with run assms(2) show ?thesis by simp
qed

lemma updateHistoryItem_not_found:
  "lookupItem tid st = None \<Longrightarrow> updateHistoryItem tid u now st = (False, st)"
  by (auto simp: lookupItem_def updateHistoryItem_def find_findIndex split: sum.splits option.splits)

lemma lookup_store1: "lookupItem ''t1'' (store1 ls) = Some (item1 ls)"
  by (simp add: lookupItem_def store1_def readHistory_def item1_def)

lemma saveToHistory_ok:
  assumes "readHistory st = Inr h" and "writable st"
  shows "saveToHistory td uuid now st =
           (Some uuid, st\<lparr>item := Parsed (take MAX_HISTORY_ITEMS (newHistoryItem td uuid now # h))\<rparr>)"
  using assms by (simp add: saveToHistory_def setItem_def Let_def newHistoryItem_def)

lemma saveCompleteLogsToHistory_True:
  assumes "saveCompleteLogsToHistory tid b now st = (True, st')"
  shows "writable st \<and> (\<exists>it. lookupItem tid st = Some it)"
  using assms
  by (auto simp: saveCompleteLogsToHistory_def lookupItem_def find_findIndex setItem_def Let_def
           split: sum.splits option.splits if_splits)

lemma existing_new_disjoint:
  "message ` set (existing :: log_event list) \<inter>
   message ` set (filter (\<lambda>l. message l \<notin> message ` set existing) incoming) = {}"
  by force

lemma mergeUpdateLogs_distinct:
  assumes "distinct (map message existing)" and "distinct (map message incoming)"
  shows "distinct (map message (mergeUpdateLogs existing incoming))"
proof -
  have "distinct (map message (filter (\<lambda>l. message l \<notin> message ` set existing) incoming))"
    using assms(2) by (rule distinct_map_filter)
  with assms(1) existing_new_disjoint[of existing incoming] show ?thesis
    by (simp add: mergeUpdateLogs_def)
qed

lemma updateHistoryItem_logs:
  assumes "lookupItem tid st = Some it" and "writable st" and "ls \<noteq> []"
  shows "\<exists>st' it'. updateHistoryItem tid (u\<lparr>u_logs := Some ls\<rparr>) now st = (True, st') \<and>
           lookupItem tid st' = Some it' \<and> logs it' = mergeUpdateLogs (logs it) ls"
  using updateHistoryItem_found[OF assms(1,2), of "u\<lparr>u_logs := Some ls\<rparr>" now] assms(3)
  by (auto simp: mergeLogsField_def spreadUpdates_def)

lemma saveToHistory_lookup:
  assumes "readHistory st = Inr h" and "writable st"
  shows "lookupItem (td_taskId td) (snd (saveToHistory td uuid now st))
           = Some (newHistoryItem td uuid now)"
  using assms
  by (simp add: saveToHistory_ok lookupItem_written MAX_HISTORY_ITEMS_def take_Cons'
        newHistoryItem_def)

lemma find_append_case:
  "find P (xs @ ys) = (case find P xs of None \<Rightarrow> find P ys | Some x \<Rightarrow> Some x)"
  by (induction xs) simp_all

lemma find_replicate_False: "\<not> P x \<Longrightarrow> find P (replicate n x) = None"
  by (simp add: find_None_iff)

lemma lookup_fullStore: "lookupItem ''t2'' fullStore = Some item2"
  by (simp add: lookupItem_def fullStore_def readHistory_def find_append_case
        find_replicate_False item1_def item2_def)

section \<open>Properties of the poller\<close>

lemma poll_timeout_retry:
  assumes "isTimeout ev" and "attempt p < maxAttempts"
  shows "poll tid startT cl ev p = Reschedule 2000 (p\<lparr>attempt := attempt p + 1\<rparr>)"
  using assms by (auto simp: poll_def isTimeout_def split: sum.splits)

lemma poll_abort:
  assumes "fetched ev = Inl err"
    and "err_code err \<noteq> Some ''ECONNABORTED'' \<or> \<not> attempt p < maxAttempts"
  shows "poll tid startT cl ev p =
           Stopped (p\<lparr>store := snd (updateHistoryItem tid (abortUpdates startT cl ev err)
                                        (clock ev) (store p)),
                      loading := False, errorState := errConnection\<rparr>)"
  using assms by (auto simp: poll_def abortUpdates_def Let_def)

lemma poll_running:
  assumes "fetched ev = Inr resp" and "resp_status resp = ''running''"
  shows "\<exists>p'. poll tid startT cl ev p = Reschedule 1500 p' \<and> attempt p' = attempt p"
  using assms by (simp add: poll_def Let_def mergePolledLogs_def)

lemma runPoll_append:
  "runPoll tid startT cl ev (evs @ e' # evs') p =
     (case runPoll tid startT cl ev evs p of
        Stopped p' \<Rightarrow> Stopped p'
      | Reschedule d p' \<Rightarrow> runPoll tid startT cl e' evs' p')"
  by (induction evs arbitrary: ev p) (simp_all split: poll_next.splits)

lemma runPoll_timeouts:
  assumes "\<forall>e\<in>set (ev # evs). isTimeout e" and "attempt p + length evs < maxAttempts"
  shows "runPoll tid startT cl ev evs p = Reschedule 2000 (p\<lparr>attempt := attempt p + length evs + 1\<rparr>)"
  using assms
proof (induction evs arbitrary: ev p)
  case Nil
  then show ?case by (simp add: poll_timeout_retry)
next
  case (Cons e evs)
  from Cons.prems have step: "poll tid startT cl ev p = Reschedule 2000 (p\<lparr>attempt := attempt p + 1\<rparr>)"
    by (simp add: poll_timeout_retry)
  from Cons.prems have "\<forall>e'\<in>set (e # evs). isTimeout e'"
    and "attempt (p\<lparr>attempt := attempt p + 1\<rparr>) + length evs < maxAttempts" by simp_all
  from Cons.IH[OF this] step show ?case by simp
qed

lemma mergeUpdateLogs_messages:
  "message ` set (mergeUpdateLogs existing incoming)
     = message ` set existing \<union> message ` set incoming"
  by (auto simp: mergeUpdateLogs_def Let_def)

lemma abort_record:
  assumes "lookupItem tid st = Some it" and "writable st"
  shows "\<exists>it'. lookupItem tid (snd (updateHistoryItem tid (abortUpdates startT cl ev err) now st))
               = Some it' \<and>
           status it' = ''failed'' \<and> error it' = Some (err_message err) \<and>
           result it' = result it \<and> endTime it' = Some (clock ev) \<and>
           msgConnection (err_message err) \<in> message ` set (logs it')"
proof -
  let ?u = "abortUpdates startT cl ev err"
  let ?e = "\<lparr>message = msgConnection (err_message err), logtype = ''error'',
                      timestamp = Some (clock ev)\<rparr>"
  from updateHistoryItem_found[OF assms, of ?u now]
  have l: "lookupItem tid (snd (updateHistoryItem tid ?u now st))
         = Some (spreadUpdates it (mergeLogsField it ?u) now)" by auto
  have f: "u_status (mergeLogsField it ?u) = Some ''failed''"
       "u_error (mergeLogsField it ?u) = Some (err_message err)"
       "u_result (mergeLogsField it ?u) = None"
       "u_endTime (mergeLogsField it ?u) = Some (clock ev)"
       "u_logs (mergeLogsField it ?u) = Some (mergeUpdateLogs (logs it) (cl @ [?e]))"
    by (simp_all add: mergeLogsField_def abortUpdates_def noUpdates_def)
  have "msgConnection (err_message err) \<in> message ` set (mergeUpdateLogs (logs it) (cl @ [?e]))"
    by (simp add: mergeUpdateLogs_messages)
  with l f show ?thesis by (simp add: spreadUpdates_def)
qed


lemma eleven_timeouts_abort:
  assumes "length evs = 10" and "\<forall>e\<in>set (ev # evs). isTimeout e"
  shows "\<exists>err. fetched (last (ev # evs)) = Inl err \<and>
           pollLogs tid startT cl ev evs p =
             Stopped (p\<lparr>attempt := 10,
                        store := snd (updateHistoryItem tid (abortUpdates startT cl (last evs) err)
                                        (clock (last evs)) (store p)),
                        loading := False, errorState := errConnection\<rparr>)"
proof -
  from assms(1) have ne: "evs \<noteq> []" by auto
  then have split: "evs = butlast evs @ last evs # []" by simp
  from assms have t: "\<forall>e\<in>set (ev # butlast evs). isTimeout e"
    by (auto dest: in_set_butlastD)
  from assms ne have tl: "isTimeout (last evs)" by simp
  then obtain err where err: "fetched (last evs) = Inl err"
    by (auto simp: isTimeout_def split: sum.splits)
  let ?p0 = "p\<lparr>attempt := 0\<rparr>"
  have "attempt ?p0 + length (butlast evs) < maxAttempts"
    using assms(1) by (simp add: maxAttempts_def)
  from runPoll_timeouts[OF t this, of tid startT cl]
  have first: "runPoll tid startT cl ev (butlast evs) ?p0 = Reschedule 2000 (p\<lparr>attempt := 10\<rparr>)"
    using assms(1) by simp
  have "pollLogs tid startT cl ev evs p = runPoll tid startT cl ev (butlast evs @ last evs # []) ?p0"
    using split by (simp add: pollLogs_def)
  also have "\<dots> = poll tid startT cl (last evs) (p\<lparr>attempt := 10\<rparr>)"
    by (simp only: runPoll_append first poll_next.case runPoll.simps)
  also have "\<dots> = Stopped (p\<lparr>attempt := 10,
                        store := snd (updateHistoryItem tid (abortUpdates startT cl (last evs) err)
                                        (clock (last evs)) (store p)),
                        loading := False, errorState := errConnection\<rparr>)"
    using poll_abort[OF err, of "p\<lparr>attempt := 10\<rparr>" tid startT cl]
    by (simp add: maxAttempts_def)
  finally show ?thesis using err ne by simp
qed

lemma poll_completed_no_result:
  assumes "fetched ev = Inr resp" and "resp_status resp = ''completed''" and "resultFailed ev"
  shows "poll tid startT cl ev p =
           Stopped ((mergePolledLogs tid ev resp p)\<lparr>
              store := snd (updateHistoryItem tid (noResultUpdates startT cl ev) (clock ev)
                              (store (mergePolledLogs tid ev resp p))),
              loading := False\<rparr>)"
  using assms
  by (auto simp: poll_def resultFailed_def noResultUpdates_def Let_def
           split: sum.splits option.splits)

lemma mergePolledLogs_rest:
  "attempt (mergePolledLogs tid ev resp p) = attempt p \<and>
   errorState (mergePolledLogs tid ev resp p) = errorState p"
  by (simp add: mergePolledLogs_def Let_def)

lemma last_mergeUpdateLogs:
  "message e \<notin> message ` set existing \<Longrightarrow> last (mergeUpdateLogs existing (ls @ [e])) = e"
  by (simp add: mergeUpdateLogs_def)

lemma mergeUpdateLogs_extends:
  "\<exists>rest. mergeUpdateLogs existing incoming = existing @ rest \<and> set rest \<subseteq> set incoming"
  by (auto simp: mergeUpdateLogs_def)

lemma mergePolledLogs_logs:
  assumes "lookupItem tid (store p) = Some it" and "writable (store p)"
  shows "\<exists>it1. lookupItem tid (store (mergePolledLogs tid ev resp p)) = Some it1 \<and>
           writable (store (mergePolledLogs tid ev resp p)) \<and>
           result it1 = result it \<and> error it1 = error it \<and>
           logs it1 =
             (if filter (\<lambda>l. message l \<notin> message ` set (logsState p))
                   (logs_or_empty (resp_logs resp)) = []
              then logs it
              else mergeUpdateLogs (logs it)
                     (logsState p @ filter (\<lambda>l. message l \<notin> message ` set (logsState p))
                                      (logs_or_empty (resp_logs resp))))"
proof -
  let ?new = "filter (\<lambda>l. message l \<notin> message ` set (logsState p))
                (logs_or_empty (resp_logs resp))"
  let ?u = "noUpdates\<lparr>u_logs := Some (logsState p @ ?new), u_status := Some (resp_status resp)\<rparr>"
  show ?thesis
  proof (cases "?new = []")
    case True
    then have "store (mergePolledLogs tid ev resp p) = store p"
      by (simp add: mergePolledLogs_def Let_def)
    with assms True show ?thesis by simp
  next
    case False
    then have st: "store (mergePolledLogs tid ev resp p)
                 = snd (updateHistoryItem tid ?u (clock ev) (store p))"
      by (simp add: mergePolledLogs_def Let_def)
    from False have ne: "logsState p @ ?new \<noteq> []" by simp
    from updateHistoryItem_found[OF assms, of ?u "clock ev"] obtain st' where
      r: "updateHistoryItem tid ?u (clock ev) (store p) = (True, st')" "writable st'"
         "lookupItem tid st' = Some (spreadUpdates it (mergeLogsField it ?u) (clock ev))"
      by blast
    have f: "u_result (mergeLogsField it ?u) = None" "u_error (mergeLogsField it ?u) = None"
            "u_logs (mergeLogsField it ?u) = Some (mergeUpdateLogs (logs it) (logsState p @ ?new))"
      using ne by (simp_all add: mergeLogsField_def noUpdates_def)
    from r f st False show ?thesis by (simp add: spreadUpdates_def)
  qed
qed

lemma poller1_item: "lookupItem ''t1'' (store poller1) = Some (item1 [logAt ''x'' None])"
  by (simp add: poller1_def lookup_store1)

lemma poller1_writable: "writable (store poller1)"
  by (simp add: poller1_def store1_def)

lemma poller0_item: "lookupItem ''t1'' (store poller0) = Some (item1 [])"
  by (simp add: poller0_def lookup_store1)

lemma poller0_writable: "writable (store poller0)"
  by (simp add: poller0_def store1_def)

section \<open>The claims\<close>

text \<open>
  C1, as the code has it. The final reconciliation puts the backend's logs first and
  the item's logs after them, and keeps the first event of each message in that order:
  whenever the item of the task is in a writable store, \<open>saveCompleteLogsToHistory\<close>
  succeeds, the item's logs afterwards have no message twice, hold exactly the messages
  of the two sides, and for every message the kept event is the first one with that
  message in the backend's logs followed by the item's logs. So a backend event wins
  over an event of the item with the same message.
\<close>

theorem final_merge_backend_first:
  assumes "lookupItem tid st = Some it" and "writable st"
  shows "\<exists>st' it'. saveCompleteLogsToHistory tid (Some backendLogs) now st = (True, st') \<and>
           lookupItem tid st' = Some it' \<and>
           distinct (map message (logs it')) \<and>
           message ` set (logs it') = message ` set backendLogs \<union> message ` set (logs it) \<and>
           (\<forall>m. find (\<lambda>l. message l = m) (logs it')
                = find (\<lambda>l. message l = m) (backendLogs @ logs it))"
proof -
  from saveCompleteLogsToHistory_found[OF assms, of "Some backendLogs" now]
  obtain st' where
    run: "saveCompleteLogsToHistory tid (Some backendLogs) now st = (True, st')" and
    it': "lookupItem tid st' = Some (it\<lparr>logs := reconcileLogs backendLogs (logs it),
            allLogs := backendLogs, updatedAt := Some now\<rparr>)"
    by (auto simp: logs_or_empty_def)
  have "message ` set (reconcileLogs backendLogs (logs it))
        = message ` set backendLogs \<union> message ` set (logs it)"
    by (simp add: reconcileLogs_messages image_Un)
  with run it' show ?thesis
    by (simp add: reconcileLogs_distinct reconcileLogs_find)
qed

theorem final_merge_backend_first_witness:
  "lookupItem ''t1'' (store1 [logA ''info'']) = Some (item1 [logA ''info'']) \<and>
   writable (store1 [logA ''info'']) \<and>
   (\<exists>st' it'. saveCompleteLogsToHistory ''t1'' (Some [logA ''error'']) 7 (store1 [logA ''info''])
                 = (True, st') \<and>
           lookupItem ''t1'' st' = Some it' \<and>
           distinct (map message (logs it')) \<and>
           message ` set (logs it')
             = message ` set [logA ''error''] \<union> message ` set (logs (item1 [logA ''info''])) \<and>
           (\<forall>m. find (\<lambda>l. message l = m) (logs it')
                = find (\<lambda>l. message l = m) ([logA ''error''] @ logs (item1 [logA ''info'']))))"
proof -
  have w: "writable (store1 [logA ''info''])" by (simp add: store1_def)
  from final_merge_backend_first[OF lookup_store1 w, of "[logA ''error'']" 7] lookup_store1 w
  show ?thesis by simp
qed

text \<open>
  The item's own event does not win: with the item's logs holding the message \<open>a\<close> as
  info and the backend's logs holding it as error, one event is left, and it is the
  error one.
\<close>

theorem final_merge_existing_first_counterexample:
  "reconcileLogs [logA ''error''] [logA ''info''] = [logA ''error''] \<and>
   map_option (map logtype \<circ> logs)
     (lookupItem ''t1'' (snd (saveCompleteLogsToHistory ''t1'' (Some [logA ''error'']) 7
                                (store1 [logA ''info'']))))
     = Some [''error''] \<and>
   map_option (map logtype \<circ> logs)
     (lookupItem ''t1'' (snd (saveCompleteLogsToHistory ''t1'' (Some [logA ''error'']) 7
                                (store1 [logA ''info'']))))
     \<noteq> Some [''info'']"
  by (simp add: saveCompleteLogsToHistory_def store1_def readHistory_def item1_def
        setItem_def logs_or_empty_def reconcileLogs_def logA_def compareLogs_def timeOf_def
        lookupItem_def Let_def)

text \<open>
  C2, as the code has it. After the final reconciliation the item's logs are sorted in
  ascending order of their time, an event without a timestamp counting as time 0 (the
  epoch). An update with a non-empty \<open>logs\<close> array does not sort: it leaves the item's
  logs in place and appends the incoming events with new messages in the order in which
  they came.
\<close>

theorem final_reconciliation_sorted:
  assumes "lookupItem tid st = Some it" and "writable st"
  shows "(\<exists>st' it'. saveCompleteLogsToHistory tid (Some backendLogs) now st = (True, st') \<and>
            lookupItem tid st' = Some it' \<and>
            sorted (map (\<lambda>a. case timestamp a of None \<Rightarrow> 0 | Some t \<Rightarrow> t) (logs it'))) \<and>
         (ls \<noteq> [] \<longrightarrow>
           (\<exists>st' it'. updateHistoryItem tid (u\<lparr>u_logs := Some ls\<rparr>) now st = (True, st') \<and>
              lookupItem tid st' = Some it' \<and>
              logs it' = logs it @ filter (\<lambda>l. message l \<notin> message ` set (logs it)) ls))"
proof -
  have "timeOf = (\<lambda>a. case timestamp a of None \<Rightarrow> 0 | Some t \<Rightarrow> t)"
    by (rule ext) (simp add: timeOf_def)
  then have "sorted (map (\<lambda>a. case timestamp a of None \<Rightarrow> 0 | Some t \<Rightarrow> t)
                 (reconcileLogs backendLogs (logs it)))"
    using reconcileLogs_sorted[of backendLogs "logs it"] by simp
  with saveCompleteLogsToHistory_found[OF assms, of "Some backendLogs" now]
  have "\<exists>st' it'. saveCompleteLogsToHistory tid (Some backendLogs) now st = (True, st') \<and>
            lookupItem tid st' = Some it' \<and>
            sorted (map (\<lambda>a. case timestamp a of None \<Rightarrow> 0 | Some t \<Rightarrow> t) (logs it'))"
    by (auto simp: logs_or_empty_def)
  moreover have "\<exists>st' it'. updateHistoryItem tid (u\<lparr>u_logs := Some ls\<rparr>) now st = (True, st') \<and>
              lookupItem tid st' = Some it' \<and>
              logs it' = logs it @ filter (\<lambda>l. message l \<notin> message ` set (logs it)) ls"
    if "ls \<noteq> []"
    using updateHistoryItem_logs[OF assms that, of u now] by (simp add: mergeUpdateLogs_def)
  ultimately show ?thesis by blast
qed

theorem final_reconciliation_sorted_witness:
  "lookupItem ''t1'' (store1 [logAt ''b'' (Some 2)]) = Some (item1 [logAt ''b'' (Some 2)]) \<and>
   writable (store1 [logAt ''b'' (Some 2)]) \<and>
   [logAt ''a'' (Some 1)] \<noteq> [] \<and>
   (\<exists>st' it'. saveCompleteLogsToHistory ''t1'' (Some [logAt ''c'' None]) 7
                 (store1 [logAt ''b'' (Some 2)]) = (True, st') \<and>
            lookupItem ''t1'' st' = Some it' \<and>
            sorted (map (\<lambda>a. case timestamp a of None \<Rightarrow> 0 | Some t \<Rightarrow> t) (logs it'))) \<and>
   (\<exists>st' it'. updateHistoryItem ''t1'' (noUpdates\<lparr>u_logs := Some [logAt ''a'' (Some 1)]\<rparr>) 7
                 (store1 [logAt ''b'' (Some 2)]) = (True, st') \<and>
              lookupItem ''t1'' st' = Some it' \<and>
              logs it' = [logAt ''b'' (Some 2), logAt ''a'' (Some 1)])"
proof -
  have w: "writable (store1 [logAt ''b'' (Some 2)])" by (simp add: store1_def)
  have l: "logs (item1 [logAt ''b'' (Some 2)]) = [logAt ''b'' (Some 2)]" by (simp add: item1_def)
  have f: "message (logAt ''a'' (Some 1)) \<noteq> message (logAt ''b'' (Some 2))"
    by (simp add: logAt_def)
  from final_reconciliation_sorted[OF lookup_store1 w,
        of "[logAt ''c'' None]" 7 "[logAt ''a'' (Some 1)]" noUpdates] lookup_store1 w l f
  show ?thesis by simp
qed

text \<open>
  After an update the logs need not be sorted: an event of time 1 is appended behind an
  event of time 2. And an event without a timestamp is not always first after the final
  reconciliation: an event from before 1970 comes in front of it.
\<close>

theorem reconciler_order_counterexample:
  "map_option logs (lookupItem ''t1''
      (snd (updateHistoryItem ''t1'' (noUpdates\<lparr>u_logs := Some [logAt ''a'' (Some 1)]\<rparr>) 7
             (store1 [logAt ''b'' (Some 2)]))))
     = Some [logAt ''b'' (Some 2), logAt ''a'' (Some 1)] \<and>
   \<not> sorted (map timeOf [logAt ''b'' (Some 2), logAt ''a'' (Some 1)]) \<and>
   reconcileLogs [logAt ''y'' None] [logAt ''x'' (Some (- 5))]
     = [logAt ''x'' (Some (- 5)), logAt ''y'' None]"
  by (simp add: updateHistoryItem_def store1_def readHistory_def item1_def
        setItem_def mergeLogsField_def mergeUpdateLogs_def spreadUpdates_def noUpdates_def
        reconcileLogs_def logAt_def compareLogs_def timeOf_def lookupItem_def)

text \<open>
  C3, as the code has it. An insert stores the initial logs as they are given. An update
  with a non-empty \<open>logs\<close> array adds no event whose message the item already holds:
  the item's logs afterwards are its former logs followed by the incoming events with
  new messages, so when neither the item's logs nor the incoming array repeat a message,
  the logs afterwards repeat none.
\<close>

theorem no_repeated_message_added:
  assumes "readHistory st = Inr h" and "writable st"
  shows "(\<exists>st'. saveToHistory td uuid now st = (Some uuid, st') \<and>
            map_option logs (lookupItem (td_taskId td) st') = Some (logs_or_empty (td_logs td))) \<and>
         (lookupItem tid st = Some it \<and> ls \<noteq> [] \<longrightarrow>
            (\<exists>st' it'. updateHistoryItem tid (u\<lparr>u_logs := Some ls\<rparr>) now st = (True, st') \<and>
               lookupItem tid st' = Some it' \<and>
               logs it' = logs it @ filter (\<lambda>l. message l \<notin> message ` set (logs it)) ls \<and>
               (distinct (map message (logs it)) \<and> distinct (map message ls)
                  \<longrightarrow> distinct (map message (logs it')))))"
proof -
  have "saveToHistory td uuid now st = (Some uuid, snd (saveToHistory td uuid now st))"
    using assms by (simp add: saveToHistory_ok)
  moreover have "map_option logs (lookupItem (td_taskId td) (snd (saveToHistory td uuid now st)))
                 = Some (logs_or_empty (td_logs td))"
    using assms by (simp add: saveToHistory_lookup) (simp add: newHistoryItem_def)
  moreover have "\<exists>st' it'. updateHistoryItem tid (u\<lparr>u_logs := Some ls\<rparr>) now st = (True, st') \<and>
               lookupItem tid st' = Some it' \<and>
               logs it' = logs it @ filter (\<lambda>l. message l \<notin> message ` set (logs it)) ls \<and>
               (distinct (map message (logs it)) \<and> distinct (map message ls)
                  \<longrightarrow> distinct (map message (logs it')))"
    if "lookupItem tid st = Some it" and "ls \<noteq> []"
  proof -
    from updateHistoryItem_logs[OF that(1) assms(2) that(2), of u now] obtain st' it' where
      r: "updateHistoryItem tid (u\<lparr>u_logs := Some ls\<rparr>) now st = (True, st')"
         "lookupItem tid st' = Some it'" "logs it' = mergeUpdateLogs (logs it) ls" by blast
    have "distinct (map message (logs it'))"
      if "distinct (map message (logs it))" "distinct (map message ls)"
      using mergeUpdateLogs_distinct[OF that] r(3) by simp
    with r show ?thesis by (auto simp: mergeUpdateLogs_def)
  qed
  ultimately show ?thesis by blast
qed

theorem no_repeated_message_added_witness:
  "readHistory (store1 [logA ''info'']) = Inr [item1 [logA ''info'']] \<and>
   writable (store1 [logA ''info'']) \<and>
   lookupItem ''t1'' (store1 [logA ''info'']) = Some (item1 [logA ''info'']) \<and>
   [logA ''error'', logAt ''b'' None] \<noteq> [] \<and>
   distinct (map message (logs (item1 [logA ''info'']))) \<and>
   distinct (map message [logA ''error'', logAt ''b'' None]) \<and>
   (\<exists>st'. saveToHistory (taskData1 [logAt ''c'' None]) ''id9'' 7 (store1 [logA ''info''])
              = (Some ''id9'', st') \<and>
          map_option logs (lookupItem ''t1'' st') = Some [logAt ''c'' None]) \<and>
   (\<exists>st' it'. updateHistoryItem ''t1'' (noUpdates\<lparr>u_logs := Some [logA ''error'', logAt ''b'' None]\<rparr>)
                 7 (store1 [logA ''info'']) = (True, st') \<and>
          lookupItem ''t1'' st' = Some it' \<and>
          logs it' = [logA ''info'', logAt ''b'' None] \<and>
          distinct (map message (logs it')))"
proof -
  have r: "readHistory (store1 [logA ''info'']) = Inr [item1 [logA ''info'']]"
    by (simp add: store1_def readHistory_def)
  have w: "writable (store1 [logA ''info''])" by (simp add: store1_def)
  have d: "distinct (map message (logs (item1 [logA ''info''])))"
          "distinct (map message [logA ''error'', logAt ''b'' None])"
          "logs (item1 [logA ''info'']) = [logA ''info'']"
          "message (logA ''error'') = message (logA ''info'')"
          "message (logAt ''b'' None) \<noteq> message (logA ''info'')"
          "td_taskId (taskData1 [logAt ''c'' None]) = ''t1''"
          "logs_or_empty (td_logs (taskData1 [logAt ''c'' None])) = [logAt ''c'' None]"
    by (simp_all add: item1_def logA_def logAt_def taskData1_def logs_or_empty_def)
  from no_repeated_message_added[OF r w, of "taskData1 [logAt ''c'' None]" "''id9''" 7
         "''t1''" "item1 [logA ''info'']" "[logA ''error'', logAt ''b'' None]" noUpdates]
       r w d lookup_store1[of "[logA ''info'']"]
  show ?thesis by simp
qed

text \<open>
  Repeated messages stay: an insert whose initial logs hold the message \<open>a\<close> twice, and
  an update of an item without logs by an array that holds \<open>a\<close> twice, both leave an
  item with two events of the message \<open>a\<close>.
\<close>

theorem repeated_message_counterexample:
  "map_option (map message \<circ> logs)
     (lookupItem ''t1'' (snd (saveToHistory (taskData1 [logA ''info'', logA ''error''])
                                ''id9'' 7 emptyStore)))
     = Some [''a'', ''a''] \<and>
   map_option (map message \<circ> logs)
     (lookupItem ''t1'' (snd (updateHistoryItem ''t1''
                                (noUpdates\<lparr>u_logs := Some [logA ''info'', logA ''error'']\<rparr>) 7
                                (store1 []))))
     = Some [''a'', ''a''] \<and>
   \<not> distinct [''a'', ''a'']"
  by (simp add: saveToHistory_def updateHistoryItem_def store1_def emptyStore_def
        readHistory_def item1_def setItem_def mergeLogsField_def mergeUpdateLogs_def
        spreadUpdates_def noUpdates_def newHistoryItem_def taskData1_def logs_or_empty_def
        logA_def lookupItem_def Let_def MAX_HISTORY_ITEMS_def str_or_def str_or_null_def)

text \<open>
  C4, as the code has it. An insert that is persisted leaves the new item followed by
  the former items, cut to the first 100: at most 100 items, and when the store held
  100 items, exactly 100 with the last one (the oldest) gone, whatever its status. When
  no other item of the store and not the new one belongs to the task of the evicted
  item, every later update for that task finds no item and leaves the store as it is.
\<close>

theorem insert_keeps_newest_100:
  assumes "readHistory st = Inr h" and "writable st"
  shows "\<exists>st' h'. saveToHistory td uuid now st = (Some uuid, st') \<and>
           readHistory st' = Inr h' \<and>
           h' = take 100 (newHistoryItem td uuid now # h) \<and>
           length h' \<le> 100 \<and>
           (length h = 100 \<longrightarrow> length h' = 100 \<and> h' = newHistoryItem td uuid now # butlast h) \<and>
           (length h = 100 \<and> taskId (last h) \<noteq> td_taskId td \<and>
            taskId (last h) \<notin> taskId ` set (butlast h) \<longrightarrow>
              lookupItem (taskId (last h)) st' = None \<and>
              (\<forall>upd t. updateHistoryItem (taskId (last h)) upd t st' = (False, st')))"
proof -
  let ?h' = "take 100 (newHistoryItem td uuid now # h)"
  let ?st' = "st\<lparr>item := Parsed ?h'\<rparr>"
  have "saveToHistory td uuid now st = (Some uuid, ?st')"
    using assms by (simp add: saveToHistory_ok MAX_HISTORY_ITEMS_def)
  moreover have "readHistory ?st' = Inr ?h'"
    by (simp add: readHistory_def)
  moreover have "length ?h' \<le> 100" by simp
  moreover have full: "length ?h' = 100 \<and> ?h' = newHistoryItem td uuid now # butlast h"
    if "length h = 100"
    using that by (simp add: take_Cons' butlast_conv_take)
  moreover have "lookupItem (taskId (last h)) ?st' = None \<and>
              (\<forall>upd t. updateHistoryItem (taskId (last h)) upd t ?st' = (False, ?st'))"
    if "length h = 100 \<and> taskId (last h) \<noteq> td_taskId td \<and>
        taskId (last h) \<notin> taskId ` set (butlast h)"
  proof -
    from that full have h': "?h' = newHistoryItem td uuid now # butlast h" by simp
    have "taskId (newHistoryItem td uuid now) = td_taskId td"
      by (simp add: newHistoryItem_def)
    moreover from that have "\<forall>x\<in>set (butlast h). taskId x \<noteq> taskId (last h)"
      by (auto simp: image_iff)
    ultimately have "find (\<lambda>it. taskId it = taskId (last h))
                      (newHistoryItem td uuid now # butlast h) = None"
      using that by (auto simp: find_None_iff)
    then have "lookupItem (taskId (last h)) ?st' = None"
      by (simp only: lookupItem_written h')
    then show ?thesis by (simp add: updateHistoryItem_not_found)
  qed
  ultimately show ?thesis by blast
qed

theorem insert_keeps_newest_100_witness:
  "readHistory fullStore = Inr (replicate 99 (item1 []) @ [item2]) \<and>
   writable fullStore \<and>
   length (replicate 99 (item1 []) @ [item2]) = 100 \<and>
   taskId (last (replicate 99 (item1 []) @ [item2])) \<noteq> td_taskId (taskData1 []) \<and>
   taskId (last (replicate 99 (item1 []) @ [item2]))
     \<notin> taskId ` set (butlast (replicate 99 (item1 []) @ [item2])) \<and>
   (\<exists>st' h'. saveToHistory (taskData1 []) ''id9'' 7 fullStore = (Some ''id9'', st') \<and>
           readHistory st' = Inr h' \<and>
           h' = newHistoryItem (taskData1 []) ''id9'' 7 # replicate 99 (item1 []) \<and>
           length h' = 100 \<and>
           lookupItem ''t2'' st' = None \<and>
           updateHistoryItem ''t2'' (noUpdates\<lparr>u_status := Some ''running''\<rparr>) 8 st'
             = (False, st'))"
proof -
  have r: "readHistory fullStore = Inr (replicate 99 (item1 []) @ [item2])"
    by (simp add: fullStore_def readHistory_def)
  have w: "writable fullStore" by (simp add: fullStore_def)
  have t: "taskId (last (replicate 99 (item1 []) @ [item2])) = ''t2''"
          "td_taskId (taskData1 []) = ''t1''"
          "taskId ` set (butlast (replicate 99 (item1 []) @ [item2])) = {''t1''}"
    by (simp_all add: item2_def item1_def taskData1_def butlast_append)
  have l: "length (replicate 99 (item1 []) @ [item2]) = 100" by simp
  from insert_keeps_newest_100[OF r w, of "taskData1 []" "''id9''" 7]
  obtain st' h' where
    c: "saveToHistory (taskData1 []) ''id9'' 7 fullStore = (Some ''id9'', st')"
       "readHistory st' = Inr h'"
       "h' = newHistoryItem (taskData1 []) ''id9'' 7 # replicate 99 (item1 [])"
       "length h' = 100"
       "lookupItem ''t2'' st' = None"
       "\<forall>upd t. updateHistoryItem ''t2'' upd t st' = (False, st')"
    by (auto simp: item2_def item1_def taskData1_def)
  from c r w l t show ?thesis by simp
qed

text \<open>
  A running item is evicted like any other. The full store holds the running item of
  the task \<open>t2\<close> at its old end; after one insert the item is gone, and the next update
  that a poller makes for \<open>t2\<close> finds nothing.
\<close>

theorem running_item_evicted_counterexample:
  "map_option status (lookupItem ''t2'' fullStore) = Some ''running'' \<and>
   readHistory (snd (saveToHistory (taskData1 []) ''id9'' 7 fullStore))
     = Inr (newHistoryItem (taskData1 []) ''id9'' 7 # replicate 99 (item1 [])) \<and>
   lookupItem ''t2'' (snd (saveToHistory (taskData1 []) ''id9'' 7 fullStore)) = None \<and>
   fst (updateHistoryItem ''t2'' (noUpdates\<lparr>u_status := Some ''running''\<rparr>) 8
          (snd (saveToHistory (taskData1 []) ''id9'' 7 fullStore))) = False"
proof -
  have r: "readHistory fullStore = Inr (replicate 99 (item1 []) @ [item2])"
    by (simp add: fullStore_def readHistory_def)
  have w: "writable fullStore" by (simp add: fullStore_def)
  have s: "snd (saveToHistory (taskData1 []) ''id9'' 7 fullStore)
           = fullStore\<lparr>item := Parsed (newHistoryItem (taskData1 []) ''id9'' 7 # replicate 99 (item1 []))\<rparr>"
    by (simp add: saveToHistory_ok[OF r w] MAX_HISTORY_ITEMS_def)
  have n: "lookupItem ''t2'' (snd (saveToHistory (taskData1 []) ''id9'' 7 fullStore)) = None"
    by (simp add: s lookupItem_written find_replicate_False)
       (simp add: newHistoryItem_def taskData1_def item1_def find_replicate_False)
  have "map_option status (lookupItem ''t2'' fullStore) = Some ''running''"
    by (simp add: lookup_fullStore) (simp add: item2_def item1_def)
  moreover have "readHistory (snd (saveToHistory (taskData1 []) ''id9'' 7 fullStore))
     = Inr (newHistoryItem (taskData1 []) ''id9'' 7 # replicate 99 (item1 []))"
    by (simp add: s readHistory_def)
  moreover have "fst (updateHistoryItem ''t2'' (noUpdates\<lparr>u_status := Some ''running''\<rparr>) 8
          (snd (saveToHistory (taskData1 []) ''id9'' 7 fullStore))) = False"
    by (simp add: updateHistoryItem_not_found[OF n])
  ultimately show ?thesis using n by simp
qed

text \<open>
  C5, as the code has it. The counter \<open>attempt\<close> counts the timeouts of the whole run
  of the poller and is never set back. For an item that is in a writable store: a logs
  request that times out while the counter is below 10 is retried after 2000 ms, with
  the counter one higher and nothing else changed; a logs request that answers
  \<open>running\<close> leaves the counter as it is; a failure that is no timeout, or any failure
  once the counter has reached 10, stops the poller and leaves the item with the status
  failed, the error's message in \<open>error\<close>, a log entry for the communication failure
  and the result it had; and eleven timeouts in a row from the start end in that way.
\<close>

theorem timeouts_counted_over_the_run:
  assumes "lookupItem tid (store p) = Some it" and "writable (store p)"
  shows "(isTimeout ev \<and> attempt p < 10 \<longrightarrow>
            poll tid startT cl ev p = Reschedule 2000 (p\<lparr>attempt := attempt p + 1\<rparr>)) \<and>
         (\<forall>resp. fetched ev = Inr resp \<and> resp_status resp = ''running'' \<longrightarrow>
            (\<exists>p'. poll tid startT cl ev p = Reschedule 1500 p' \<and> attempt p' = attempt p)) \<and>
         (\<forall>err. fetched ev = Inl err \<and>
                (err_code err \<noteq> Some ''ECONNABORTED'' \<or> 10 \<le> attempt p) \<longrightarrow>
            (\<exists>p' it'. poll tid startT cl ev p = Stopped p' \<and>
               lookupItem tid (store p') = Some it' \<and>
               status it' = ''failed'' \<and> error it' = Some (err_message err) \<and>
               result it' = result it \<and>
               msgConnection (err_message err) \<in> message ` set (logs it'))) \<and>
         (length evs = 10 \<and> (\<forall>e\<in>set (ev # evs). isTimeout e) \<longrightarrow>
            (\<exists>p' it' err. pollLogs tid startT cl ev evs p = Stopped p' \<and>
               fetched (last (ev # evs)) = Inl err \<and>
               lookupItem tid (store p') = Some it' \<and>
               status it' = ''failed'' \<and> error it' = Some (err_message err) \<and>
               result it' = result it \<and>
               msgConnection (err_message err) \<in> message ` set (logs it')))"
proof (intro conjI allI impI)
  assume "isTimeout ev \<and> attempt p < 10"
  then show "poll tid startT cl ev p = Reschedule 2000 (p\<lparr>attempt := attempt p + 1\<rparr>)"
    by (simp add: poll_timeout_retry maxAttempts_def)
next
  fix resp assume "fetched ev = Inr resp \<and> resp_status resp = ''running''"
  then show "\<exists>p'. poll tid startT cl ev p = Reschedule 1500 p' \<and> attempt p' = attempt p"
    by (simp add: poll_running)
next
  fix err assume a: "fetched ev = Inl err \<and> (err_code err \<noteq> Some ''ECONNABORTED'' \<or> 10 \<le> attempt p)"
  then have c: "err_code err \<noteq> Some ''ECONNABORTED'' \<or> \<not> attempt p < maxAttempts"
    by (auto simp: maxAttempts_def)
  from a have f: "fetched ev = Inl err" by simp
  from abort_record[OF assms, of startT cl ev err "clock ev"] poll_abort[OF f c, of tid startT cl]
  show "\<exists>p' it'. poll tid startT cl ev p = Stopped p' \<and>
               lookupItem tid (store p') = Some it' \<and>
               status it' = ''failed'' \<and> error it' = Some (err_message err) \<and>
               result it' = result it \<and>
               msgConnection (err_message err) \<in> message ` set (logs it')"
    by auto
next
  assume a: "length evs = 10 \<and> (\<forall>e\<in>set (ev # evs). isTimeout e)"
  then have l: "length evs = 10" and t: "\<forall>e\<in>set (ev # evs). isTimeout e" by simp_all
  from eleven_timeouts_abort[OF l t, of tid startT cl p] obtain err where
    e: "fetched (last (ev # evs)) = Inl err" and
    r: "pollLogs tid startT cl ev evs p =
             Stopped (p\<lparr>attempt := 10,
                        store := snd (updateHistoryItem tid (abortUpdates startT cl (last evs) err)
                                        (clock (last evs)) (store p)),
                        loading := False, errorState := errConnection\<rparr>)" by blast
  from abort_record[OF assms, of startT cl "last evs" err "clock (last evs)"] e r
  show "\<exists>p' it' err. pollLogs tid startT cl ev evs p = Stopped p' \<and>
               fetched (last (ev # evs)) = Inl err \<and>
               lookupItem tid (store p') = Some it' \<and>
               status it' = ''failed'' \<and> error it' = Some (err_message err) \<and>
               result it' = result it \<and>
               msgConnection (err_message err) \<in> message ` set (logs it')"
    by auto
qed


theorem timeouts_counted_over_the_run_witness:
  "lookupItem ''t1'' (store poller0) = Some (item1 []) \<and> writable (store poller0) \<and>
   isTimeout timeoutEv \<and> attempt poller0 < 10 \<and>
   poll ''t1'' 0 [] timeoutEv poller0 = Reschedule 2000 (poller0\<lparr>attempt := 1\<rparr>) \<and>
   fetched (statusEv ''running'') = Inr \<lparr>resp_logs = None, resp_status = ''running''\<rparr> \<and>
   (\<exists>p'. poll ''t1'' 0 [] (statusEv ''running'') poller0 = Reschedule 1500 p' \<and> attempt p' = 0) \<and>
   fetched networkEv = Inl \<lparr>err_code = Some ''ERR_NETWORK'', err_message = ''Network Error''\<rparr> \<and>
   (\<exists>p' it'. poll ''t1'' 0 [] networkEv poller0 = Stopped p' \<and>
       lookupItem ''t1'' (store p') = Some it' \<and>
       status it' = ''failed'' \<and> error it' = Some ''Network Error'' \<and> result it' = None \<and>
       msgConnection ''Network Error'' \<in> message ` set (logs it')) \<and>
   length (replicate 10 timeoutEv) = 10 \<and>
   (\<exists>p' it'. pollLogs ''t1'' 0 [] timeoutEv (replicate 10 timeoutEv) poller0 = Stopped p' \<and>
       lookupItem ''t1'' (store p') = Some it' \<and>
       status it' = ''failed'' \<and> error it' = Some ''timeout of 15000ms exceeded'' \<and>
       result it' = None \<and>
       msgConnection ''timeout of 15000ms exceeded'' \<in> message ` set (logs it'))"
proof -
  have t: "isTimeout timeoutEv" by (simp add: isTimeout_def timeoutEv_def)
  have a: "attempt poller0 < 10" "attempt poller0 = 0" by (simp_all add: poller0_def)
  have fr: "fetched (statusEv ''running'') = Inr \<lparr>resp_logs = None, resp_status = ''running''\<rparr>"
    by (simp add: statusEv_def)
  have fn: "fetched networkEv = Inl \<lparr>err_code = Some ''ERR_NETWORK'', err_message = ''Network Error''\<rparr>"
    by (simp add: networkEv_def)
  have ft: "fetched timeoutEv = Inl \<lparr>err_code = Some ''ECONNABORTED'',
                                   err_message = ''timeout of 15000ms exceeded''\<rparr>"
    by (simp add: timeoutEv_def)
  have all: "\<forall>e\<in>set (timeoutEv # replicate 10 timeoutEv). isTimeout e" using t by simp
  have res: "result (item1 []) = None" by (simp add: item1_def)
  note thm1 = timeouts_counted_over_the_run[OF poller0_item poller0_writable,
                 of timeoutEv 0 "[]" "[]"]
  note thm2 = timeouts_counted_over_the_run[OF poller0_item poller0_writable,
                 of "statusEv ''running''" 0 "[]" "[]"]
  note thm3 = timeouts_counted_over_the_run[OF poller0_item poller0_writable,
                 of networkEv 0 "[]" "[]"]
  note thm4 = timeouts_counted_over_the_run[OF poller0_item poller0_writable,
                 of timeoutEv 0 "[]" "replicate 10 timeoutEv"]
  have c1: "poll ''t1'' 0 [] timeoutEv poller0 = Reschedule 2000 (poller0\<lparr>attempt := 1\<rparr>)"
    using thm1 t a by simp
  have c2: "\<exists>p'. poll ''t1'' 0 [] (statusEv ''running'') poller0 = Reschedule 1500 p' \<and> attempt p' = 0"
    using thm2 fr a by simp
  have c3: "\<exists>p' it'. poll ''t1'' 0 [] networkEv poller0 = Stopped p' \<and>
       lookupItem ''t1'' (store p') = Some it' \<and>
       status it' = ''failed'' \<and> error it' = Some ''Network Error'' \<and> result it' = None \<and>
       msgConnection ''Network Error'' \<in> message ` set (logs it')"
    using thm3 fn res by simp
  have c4: "\<exists>p' it'. pollLogs ''t1'' 0 [] timeoutEv (replicate 10 timeoutEv) poller0 = Stopped p' \<and>
       lookupItem ''t1'' (store p') = Some it' \<and>
       status it' = ''failed'' \<and> error it' = Some ''timeout of 15000ms exceeded'' \<and>
       result it' = None \<and>
       msgConnection ''timeout of 15000ms exceeded'' \<in> message ` set (logs it')"
    using thm4 all ft res by simp
  from c1 c2 c3 c4 t a fr fn poller0_item poller0_writable show ?thesis by simp
qed

text \<open>
  A successful request between timeouts does not keep the bound away: after ten
  timeouts, one answer \<open>running\<close> and one more timeout the poller has stopped and the
  item is failed, although only one timeout came since the last answer.
\<close>

theorem success_does_not_reset_counter_counterexample:
  "isStopped (pollLogs ''t1'' 0 [] timeoutEv
                (replicate 9 timeoutEv @ [statusEv ''running'', timeoutEv]) poller0) \<and>
   map_option status
     (lookupItem ''t1'' (store (finalPoller (pollLogs ''t1'' 0 [] timeoutEv
                (replicate 9 timeoutEv @ [statusEv ''running'', timeoutEv]) poller0))))
     = Some ''failed''"
proof -
  have t: "isTimeout timeoutEv" by (simp add: isTimeout_def timeoutEv_def)
  have ft: "fetched timeoutEv = Inl \<lparr>err_code = Some ''ECONNABORTED'',
                                   err_message = ''timeout of 15000ms exceeded''\<rparr>"
    by (simp add: timeoutEv_def)
  let ?p0 = "poller0\<lparr>attempt := 0\<rparr>"
  let ?p10 = "poller0\<lparr>attempt := 10\<rparr>"
  have "\<forall>e\<in>set (timeoutEv # replicate 9 timeoutEv). isTimeout e" using t by simp
  moreover have "attempt ?p0 + length (replicate 9 timeoutEv) < maxAttempts"
    by (simp add: maxAttempts_def)
  ultimately have first: "runPoll ''t1'' 0 [] timeoutEv (replicate 9 timeoutEv) ?p0
                          = Reschedule 2000 ?p10"
    using runPoll_timeouts[of timeoutEv "replicate 9 timeoutEv" ?p0 "''t1''" 0 "[]"] by simp
  have run: "poll ''t1'' 0 [] (statusEv ''running'') ?p10 = Reschedule 1500 ?p10"
    by (simp add: poll_def statusEv_def mergePolledLogs_def logs_or_empty_def poller0_def)
  have "\<not> attempt ?p10 < maxAttempts" by (simp add: maxAttempts_def)
  then have last: "poll ''t1'' 0 [] timeoutEv ?p10 =
           Stopped (?p10\<lparr>store := snd (updateHistoryItem ''t1''
                             (abortUpdates 0 [] timeoutEv \<lparr>err_code = Some ''ECONNABORTED'',
                                   err_message = ''timeout of 15000ms exceeded''\<rparr>)
                             (clock timeoutEv) (store ?p10)),
                      loading := False, errorState := errConnection\<rparr>)"
    using poll_abort[OF ft, of ?p10 "''t1''" 0 "[]"] by simp
  have whole: "pollLogs ''t1'' 0 [] timeoutEv
                (replicate 9 timeoutEv @ [statusEv ''running'', timeoutEv]) poller0
        = Stopped (?p10\<lparr>store := snd (updateHistoryItem ''t1''
                             (abortUpdates 0 [] timeoutEv \<lparr>err_code = Some ''ECONNABORTED'',
                                   err_message = ''timeout of 15000ms exceeded''\<rparr>)
                             (clock timeoutEv) (store ?p10)),
                      loading := False, errorState := errConnection\<rparr>)"
    by (simp only: pollLogs_def runPoll_append first poll_next.case runPoll.simps run last)
  have "lookupItem ''t1'' (store ?p10) = Some (item1 [])" "writable (store ?p10)"
    using poller0_item poller0_writable by simp_all
  from abort_record[OF this, of 0 "[]" timeoutEv "\<lparr>err_code = Some ''ECONNABORTED'',
                                   err_message = ''timeout of 15000ms exceeded''\<rparr>" "clock timeoutEv"]
  show ?thesis
    by (auto simp: whole isStopped_def finalPoller_def)
qed

text \<open>
  C6. When the logs request answers \<open>completed\<close> and the result request fails, for an
  item that is in a writable store: \<open>poll\<close> ends without a new timer, the item has the
  status completed and the clock's time as \<open>endTime\<close>, and its \<open>result\<close> and \<open>error\<close>
  are what they were. Its logs are its former logs, followed by the polled entries with
  new messages and then by those of the closure's logs and the note with new messages:
  nothing of the former logs is lost or moved, and what is added comes from the polled
  logs, the closure's logs and the note only. The note that the result was not received
  is among the messages, and when no log entry known so far has its text, the note is
  the last entry of the logs, with the severity info. The error state and the timeout
  counter of the poller are untouched.
\<close>

theorem completed_without_result:
  assumes "fetched ev = Inr resp" and "resp_status resp = ''completed''"
    and "resultFailed ev"
    and "lookupItem tid (store p) = Some it" and "writable (store p)"
  shows "\<exists>p' it'. poll tid startT cl ev p = Stopped p' \<and>
           lookupItem tid (store p') = Some it' \<and>
           status it' = ''completed'' \<and> endTime it' = Some (clock ev) \<and>
           result it' = result it \<and> error it' = error it \<and>
           logs it' =
             mergeUpdateLogs
               (if filter (\<lambda>l. message l \<notin> message ` set (logsState p))
                     (logs_or_empty (resp_logs resp)) = []
                then logs it
                else mergeUpdateLogs (logs it)
                       (logsState p @ filter (\<lambda>l. message l \<notin> message ` set (logsState p))
                                        (logs_or_empty (resp_logs resp))))
               (cl @ [\<lparr>message = msgNoResult, logtype = ''info'',
                       timestamp = Some (clock ev)\<rparr>]) \<and>
           (\<exists>rest. logs it' = logs it @ rest \<and>
              set rest \<subseteq> set (logsState p) \<union> set (logs_or_empty (resp_logs resp)) \<union> set cl \<union>
                         {\<lparr>message = msgNoResult, logtype = ''info'',
                           timestamp = Some (clock ev)\<rparr>}) \<and>
           msgNoResult \<in> message ` set (logs it') \<and>
           errorState p' = errorState p \<and> attempt p' = attempt p \<and>
           (msgNoResult \<notin> message ` set (logs it) \<union> message ` set (logsState p) \<union>
                          message ` set (logs_or_empty (resp_logs resp))
            \<longrightarrow> last (logs it') = \<lparr>message = msgNoResult, logtype = ''info'',
                                     timestamp = Some (clock ev)\<rparr>)"
proof -
  let ?p1 = "mergePolledLogs tid ev resp p"
  let ?u = "noResultUpdates startT cl ev"
  let ?note = "\<lparr>message = msgNoResult, logtype = ''info'', timestamp = Some (clock ev)\<rparr>"
  let ?new = "filter (\<lambda>l. message l \<notin> message ` set (logsState p))
                (logs_or_empty (resp_logs resp))"
  let ?l1 = "if ?new = [] then logs it else mergeUpdateLogs (logs it) (logsState p @ ?new)"
  from mergePolledLogs_logs[OF assms(4,5), of ev resp] obtain it1 where
    it1: "lookupItem tid (store ?p1) = Some it1" "writable (store ?p1)"
         "result it1 = result it" "error it1 = error it" "logs it1 = ?l1" by blast
  let ?it' = "spreadUpdates it1 (mergeLogsField it1 ?u) (clock ev)"
  from updateHistoryItem_found[OF it1(1,2), of ?u "clock ev"]
  have l: "lookupItem tid (snd (updateHistoryItem tid ?u (clock ev) (store ?p1))) = Some ?it'"
    by auto
  have f: "u_status (mergeLogsField it1 ?u) = Some ''completed''"
          "u_endTime (mergeLogsField it1 ?u) = Some (clock ev)"
          "u_result (mergeLogsField it1 ?u) = None"
          "u_error (mergeLogsField it1 ?u) = None"
          "u_logs (mergeLogsField it1 ?u) = Some (mergeUpdateLogs (logs it1) (cl @ [?note]))"
    by (simp_all add: mergeLogsField_def noResultUpdates_def noUpdates_def)
  have fields: "status ?it' = ''completed''" "endTime ?it' = Some (clock ev)"
       "result ?it' = result it" "error ?it' = error it"
    using f it1(3,4) by (simp_all add: spreadUpdates_def)
  have lg: "logs ?it' = mergeUpdateLogs ?l1 (cl @ [?note])"
    using f(5) it1(5) by (simp add: spreadUpdates_def)
  have sub1: "message ` set ?l1 \<subseteq>
             message ` set (logs it) \<union> message ` set (logsState p) \<union>
             message ` set (logs_or_empty (resp_logs resp))"
    by (auto simp: mergeUpdateLogs_messages)
  have ext1: "\<exists>r1. ?l1 = logs it @ r1 \<and>
                set r1 \<subseteq> set (logsState p) \<union> set (logs_or_empty (resp_logs resp))"
  proof (cases "?new = []")
    case True
    then show ?thesis by simp
  next
    case False
    from mergeUpdateLogs_extends[of "logs it" "logsState p @ ?new"] obtain r1 where
      "mergeUpdateLogs (logs it) (logsState p @ ?new) = logs it @ r1"
      "set r1 \<subseteq> set (logsState p @ ?new)" by blast
    with False show ?thesis by auto
  qed
  have ext: "\<exists>rest. logs ?it' = logs it @ rest \<and>
              set rest \<subseteq> set (logsState p) \<union> set (logs_or_empty (resp_logs resp)) \<union> set cl \<union>
                         {?note}"
  proof -
    from ext1 obtain r1 where r1: "?l1 = logs it @ r1"
      "set r1 \<subseteq> set (logsState p) \<union> set (logs_or_empty (resp_logs resp))" by blast
    from mergeUpdateLogs_extends[of ?l1 "cl @ [?note]"] obtain r2 where
      r2: "mergeUpdateLogs ?l1 (cl @ [?note]) = ?l1 @ r2" "set r2 \<subseteq> set (cl @ [?note])"
      by blast
    have "logs ?it' = logs it @ (r1 @ r2)"
      using lg r1(1) r2(1) by simp
    moreover have "set (r1 @ r2) \<subseteq> set (logsState p) \<union> set (logs_or_empty (resp_logs resp))
                     \<union> set cl \<union> {?note}"
      using r1(2) r2(2) by auto
    ultimately show ?thesis by blast
  qed
  have present: "msgNoResult \<in> message ` set (logs ?it')"
    by (simp add: lg mergeUpdateLogs_messages)
  have appended: "last (logs ?it') = ?note"
    if "msgNoResult \<notin> message ` set (logs it) \<union> message ` set (logsState p) \<union>
                          message ` set (logs_or_empty (resp_logs resp))"
  proof -
    from that sub1 have "msgNoResult \<notin> message ` set ?l1" by blast
    then have n: "message ?note \<notin> message ` set ?l1" by simp
    show ?thesis using last_mergeUpdateLogs[OF n, of cl] by (simp only: lg)
  qed
  from poll_completed_no_result[OF assms(1,2,3), of tid startT cl p]
  have run: "poll tid startT cl ev p =
           Stopped (?p1\<lparr>store := snd (updateHistoryItem tid ?u (clock ev) (store ?p1)),
                        loading := False\<rparr>)" .
  have rest: "attempt ?p1 = attempt p" "errorState ?p1 = errorState p"
    using mergePolledLogs_rest[of tid ev resp p] by simp_all
  show ?thesis
    apply (rule exI[of _ "?p1\<lparr>store := snd (updateHistoryItem tid ?u (clock ev) (store ?p1)),
                        loading := False\<rparr>"])
    apply (rule exI[of _ ?it'])
    using run l fields lg ext present appended rest
    apply (intro conjI impI)
    apply simp_all
    done
qed

theorem completed_without_result_witness:
  "fetched polledEv = Inr \<lparr>resp_logs = Some [logAt ''x'' None, logAt ''y'' None],
                            resp_status = ''completed''\<rparr> \<and>
   resultFailed polledEv \<and>
   lookupItem ''t1'' (store poller1) = Some (item1 [logAt ''x'' None]) \<and>
   writable (store poller1) \<and>
   (\<exists>p' it'. poll ''t1'' 0 [logAt ''z'' None] polledEv poller1 = Stopped p' \<and>
           lookupItem ''t1'' (store p') = Some it' \<and>
           status it' = ''completed'' \<and> endTime it' = Some 5 \<and>
           result it' = None \<and> error it' = None \<and>
           logs it' = [logAt ''x'' None, logAt ''y'' None, logAt ''z'' None,
                       \<lparr>message = msgNoResult, logtype = ''info'', timestamp = Some 5\<rparr>] \<and>
           errorState p' = [] \<and> attempt p' = 0)"
proof -
  let ?resp = "\<lparr>resp_logs = Some [logAt ''x'' None, logAt ''y'' None],
                 resp_status = ''completed''\<rparr>"
  have f: "fetched polledEv = Inr ?resp" by (simp add: polledEv_def)
  have s: "resp_status ?resp = ''completed''" by simp
  have r: "resultFailed polledEv" by (simp add: resultFailed_def polledEv_def)
  from completed_without_result[OF f s r poller1_item poller1_writable, of 0 "[logAt ''z'' None]"]
  obtain p' it' where
    c: "poll ''t1'' 0 [logAt ''z'' None] polledEv poller1 = Stopped p'"
       "lookupItem ''t1'' (store p') = Some it'"
       "status it' = ''completed''" "endTime it' = Some 5"
       "result it' = None" "error it' = None"
       "logs it' = [logAt ''x'' None, logAt ''y'' None, logAt ''z'' None,
                    \<lparr>message = msgNoResult, logtype = ''info'', timestamp = Some 5\<rparr>]"
       "errorState p' = []" "attempt p' = 0"
    by (auto simp: polledEv_def item1_def poller1_def logs_or_empty_def mergeUpdateLogs_def
          logAt_def msgNoResult_def)
  from c f r poller1_item poller1_writable show ?thesis by simp
qed

text \<open>
  C7, as the code has it. An update with a non-empty \<open>logs\<close> array never truncates the
  logs of the item: the array is merged with the item's logs, which stay in place in
  front of the incoming entries with new messages, so every message that the item held
  before the update is still there after it. An update whose \<open>logs\<close> array is empty is
  not merged: the test of line 48 skips the merge and the spread replaces the item's
  logs by the empty array.
\<close>

theorem update_merges_nonempty_logs:
  assumes "lookupItem tid st = Some it" and "writable st"
  shows "(ls \<noteq> [] \<longrightarrow>
            (\<exists>st' it'. updateHistoryItem tid (u\<lparr>u_logs := Some ls\<rparr>) now st = (True, st') \<and>
               lookupItem tid st' = Some it' \<and>
               logs it' = logs it @ filter (\<lambda>l. message l \<notin> message ` set (logs it)) ls \<and>
               message ` set (logs it) \<subseteq> message ` set (logs it') \<and>
               length (logs it) \<le> length (logs it'))) \<and>
         (\<exists>st' it'. updateHistoryItem tid (u\<lparr>u_logs := Some []\<rparr>) now st = (True, st') \<and>
               lookupItem tid st' = Some it' \<and> logs it' = [])"
proof -
  have "\<exists>st' it'. updateHistoryItem tid (u\<lparr>u_logs := Some ls\<rparr>) now st = (True, st') \<and>
               lookupItem tid st' = Some it' \<and>
               logs it' = logs it @ filter (\<lambda>l. message l \<notin> message ` set (logs it)) ls \<and>
               message ` set (logs it) \<subseteq> message ` set (logs it') \<and>
               length (logs it) \<le> length (logs it')"
    if "ls \<noteq> []"
    using updateHistoryItem_logs[OF assms that, of u now] by (auto simp: mergeUpdateLogs_def)
  moreover have "\<exists>st' it'. updateHistoryItem tid (u\<lparr>u_logs := Some []\<rparr>) now st = (True, st') \<and>
               lookupItem tid st' = Some it' \<and> logs it' = []"
    using updateHistoryItem_found[OF assms, of "u\<lparr>u_logs := Some []\<rparr>" now]
    by (auto simp: mergeLogsField_def spreadUpdates_def)
  ultimately show ?thesis by blast
qed

theorem update_merges_nonempty_logs_witness:
  "lookupItem ''t1'' (store1 [logA ''info'']) = Some (item1 [logA ''info'']) \<and>
   writable (store1 [logA ''info'']) \<and>
   [logA ''error'', logAt ''b'' None] \<noteq> [] \<and>
   (\<exists>st' it'. updateHistoryItem ''t1'' (noUpdates\<lparr>u_logs := Some [logA ''error'', logAt ''b'' None]\<rparr>)
                 7 (store1 [logA ''info'']) = (True, st') \<and>
          lookupItem ''t1'' st' = Some it' \<and>
          logs it' = [logA ''info'', logAt ''b'' None]) \<and>
   (\<exists>st' it'. updateHistoryItem ''t1'' (noUpdates\<lparr>u_logs := Some []\<rparr>)
                 7 (store1 [logA ''info'']) = (True, st') \<and>
          lookupItem ''t1'' st' = Some it' \<and> logs it' = [])"
proof -
  have w: "writable (store1 [logA ''info''])" by (simp add: store1_def)
  have d: "logs (item1 [logA ''info'']) = [logA ''info'']"
          "message (logA ''error'') = message (logA ''info'')"
          "message (logAt ''b'' None) \<noteq> message (logA ''info'')"
    by (simp_all add: item1_def logA_def logAt_def)
  from update_merges_nonempty_logs[OF lookup_store1 w,
         of "[logA ''error'', logAt ''b'' None]" noUpdates 7]
       w d lookup_store1[of "[logA ''info'']"]
  show ?thesis by auto
qed

text \<open>
  With an empty \<open>logs\<close> array the logs are truncated: the item holds one event before
  the update and none after it.
\<close>

theorem update_with_empty_logs_truncates:
  "map_option logs (lookupItem ''t1'' (store1 [logA ''info''])) = Some [logA ''info''] \<and>
   map_option logs
     (lookupItem ''t1'' (snd (updateHistoryItem ''t1'' (noUpdates\<lparr>u_logs := Some []\<rparr>) 7
                                (store1 [logA ''info'']))))
     = Some []"
  by (simp add: updateHistoryItem_def store1_def readHistory_def item1_def setItem_def
        mergeLogsField_def spreadUpdates_def noUpdates_def lookupItem_def Let_def)

text \<open>
  C8. The merge of the final reconciliation is idempotent: for every sequence \<open>E\<close> of
  events, merging \<open>E\<close> alone (with an empty other side, in either position) and merging
  \<open>E\<close> with \<open>E\<close> give the same list, merging the result again changes nothing, and
  each kept message has the fields of its first occurrence in \<open>E\<close>.
\<close>

theorem merge_idempotent:
  "reconcileLogs E E = reconcileLogs [] E \<and> reconcileLogs E E = reconcileLogs E [] \<and>
   reconcileLogs [] (reconcileLogs [] E) = reconcileLogs [] E \<and>
   (\<forall>m. find (\<lambda>l. message l = m) (reconcileLogs E E) = find (\<lambda>l. message l = m) E)"
proof -
  have "reconcileLogs E E = reconcileLogs [] E" by (rule reconcileLogs_twice)
  moreover have "reconcileLogs E [] = reconcileLogs [] E" by (simp add: reconcileLogs_sort_key)
  moreover have "reconcileLogs [] (reconcileLogs [] E) = reconcileLogs [] E"
    by (rule reconcileLogs_again)
  moreover have "find (\<lambda>l. message l = m) (reconcileLogs E E) = find (\<lambda>l. message l = m) E" for m
    by (simp add: reconcileLogs_twice reconcileLogs_find)
  ultimately show ?thesis by simp
qed

text \<open>
  C9. Reading the history never throws: \<open>getHistory\<close> returns a value for every state
  of the storage, the empty list when nothing is stored under the key or when the
  stored text is not JSON, and the stored list otherwise.
\<close>

theorem getHistory_never_throws:
  "(\<exists>h. getHistory st = Inr h) \<and>
   getHistory (st\<lparr>item := Absent\<rparr>) = Inr [] \<and>
   getHistory (st\<lparr>item := Corrupt\<rparr>) = Inr [] \<and>
   getHistory (st\<lparr>item := Parsed h\<rparr>) = Inr h"
  by (simp add: getHistory_def try_catch_def readHistory_def split: snapshot.splits)

text \<open>
  C10. When \<open>saveCompleteLogsToHistory\<close> succeeds (it returns true), the item of the
  task holds in \<open>allLogs\<close> the backend's logs exactly as they were passed in, next to
  the merged and deduplicated \<open>logs\<close>.
\<close>

theorem allLogs_verbatim:
  assumes "saveCompleteLogsToHistory tid (Some backendLogs) now st = (True, st')"
  shows "\<exists>it it'. lookupItem tid st = Some it \<and> lookupItem tid st' = Some it' \<and>
           allLogs it' = backendLogs \<and>
           logs it' = reconcileLogs backendLogs (logs it)"
proof -
  from saveCompleteLogsToHistory_True[OF assms] obtain it where
    w: "writable st" and it: "lookupItem tid st = Some it" by blast
  from saveCompleteLogsToHistory_found[OF it w, of "Some backendLogs" now] assms it
  show ?thesis by (auto simp: logs_or_empty_def)
qed

theorem allLogs_verbatim_witness:
  "saveCompleteLogsToHistory ''t1'' (Some [logA ''error'', logA ''warning'']) 7 (store1 [logA ''info''])
     = (True, store1 [logA ''info'']\<lparr>item := Parsed [(item1 [logA ''error''])\<lparr>
          allLogs := [logA ''error'', logA ''warning''], updatedAt := Some 7\<rparr>]\<rparr>)
   \<and> (\<exists>it it'. lookupItem ''t1'' (store1 [logA ''info'']) = Some it \<and>
         lookupItem ''t1'' (store1 [logA ''info'']\<lparr>item := Parsed [(item1 [logA ''error''])\<lparr>
          allLogs := [logA ''error'', logA ''warning''], updatedAt := Some 7\<rparr>]\<rparr>) = Some it' \<and>
         allLogs it' = [logA ''error'', logA ''warning''] \<and>
         logs it' = reconcileLogs [logA ''error'', logA ''warning''] (logs it))"
proof -
  have run: "saveCompleteLogsToHistory ''t1'' (Some [logA ''error'', logA ''warning'']) 7 (store1 [logA ''info''])
     = (True, store1 [logA ''info'']\<lparr>item := Parsed [(item1 [logA ''error''])\<lparr>
          allLogs := [logA ''error'', logA ''warning''], updatedAt := Some 7\<rparr>]\<rparr>)"
    by (simp add: saveCompleteLogsToHistory_def store1_def readHistory_def item1_def
          setItem_def logs_or_empty_def reconcileLogs_def logA_def compareLogs_def timeOf_def)
  from allLogs_verbatim[OF run] run show ?thesis by simp
qed

end
